theory Spec2Isabelle
  imports Complex_Main "HOL-Library.Log_Nat"
begin

section \<open>Python values used by titletoimagebot.py\<close>

text \<open>
  A Python \<open>str\<close> is modelled as a \<open>string\<close> whose characters are the code points
  below 256 (so \<open>\<times>\<close>, U+00D7, is the character \<open>0xD7\<close>); titles with code points
  above that range are outside the model. Python's unbounded integers are \<open>int\<close>;
  sizes and counts that cannot be negative are \<open>nat\<close>. A Python \<open>float\<close>, an IEEE
  double, is the rational number it denotes.
\<close>

datatype exn =
    ImgurClientError
  | ImgurClientRateLimitError
  | OSError
  | APIException
  | TypeError
  | ValueError
  | KeyError
  | IndexError
  | ZeroDivisionError
  | OverflowError
  | IntegrityError
  | FileNotFoundError
  | OtherException

text \<open>\<open>str.isspace\<close> on one character: what \<open>str.split()\<close>, \<open>str.strip()\<close> and the
  regular expression class \<open>\s\<close> treat as whitespace.\<close>

definition is_space :: "char \<Rightarrow> bool" where
  "is_space c =
     (let n = (of_char c :: nat)
      in (9 \<le> n \<and> n \<le> 13) \<or> (28 \<le> n \<and> n \<le> 32) \<or> n = 133 \<or> n = 160)"

text \<open>The character class \<open>[0-9]\<close>.\<close>

definition is_digit :: "char \<Rightarrow> bool" where
  "is_digit c = (let n = (of_char c :: nat) in 48 \<le> n \<and> n \<le> 57)"

text \<open>\<open>s.split()\<close>: the maximal runs of non-whitespace characters, in order.
  \<open>cur\<close> is the word being read.\<close>

fun str_split_aux :: "string \<Rightarrow> string \<Rightarrow> string list" where
  "str_split_aux cur [] = (if cur = [] then [] else [cur])"
| "str_split_aux cur (c # cs) =
     (if is_space c
      then (if cur = [] then str_split_aux [] cs else cur # str_split_aux [] cs)
      else str_split_aux (cur @ [c]) cs)"

definition str_split :: "string \<Rightarrow> string list" where
  "str_split s = str_split_aux [] s"

text \<open>\<open>sep.join(ws)\<close>.\<close>

fun str_join :: "string \<Rightarrow> string list \<Rightarrow> string" where
  "str_join sep [] = []"
| "str_join sep [w] = w"
| "str_join sep (w # v # ws) = w @ sep @ str_join sep (v # ws)"

text \<open>\<open>s.strip()\<close>.\<close>

definition str_strip :: "string \<Rightarrow> string" where
  "str_strip s = rev (dropWhile is_space (rev (dropWhile is_space s)))"

text \<open>The slice \<open>s[:-n]\<close> for \<open>n \<ge> 0\<close>; \<open>s[:-0]\<close> is \<open>s[:0]\<close>, the empty string.\<close>

definition slice_to_neg :: "string \<Rightarrow> nat \<Rightarrow> string" where
  "slice_to_neg s n = (if n = 0 then [] else take (length s - n) s)"

text \<open>\<open>s.lower()\<close> on code points below 256: the ASCII capitals and the Latin-1
  capitals \<open>0xC0\<close> to \<open>0xDE\<close> except the multiplication sign \<open>0xD7\<close>.\<close>

definition char_lower :: "char \<Rightarrow> char" where
  "char_lower c =
     (let n = (of_char c :: nat)
      in if (65 \<le> n \<and> n \<le> 90) \<or> (192 \<le> n \<and> n \<le> 222 \<and> n \<noteq> 215)
         then char_of (n + 32) else c)"

definition str_lower :: "string \<Rightarrow> string" where
  "str_lower s = map char_lower s"

text \<open>\<open>t in s\<close> for strings: \<open>t\<close> occurs in \<open>s\<close> as a contiguous block.\<close>

fun str_contains :: "string \<Rightarrow> string \<Rightarrow> bool" where
  "str_contains t [] = (t = [])"
| "str_contains t (c # cs) = (take (length t) (c # cs) = t \<or> str_contains t cs)"

text \<open>\<open>s.endswith(suffix)\<close>.\<close>

definition str_endswith :: "string \<Rightarrow> string \<Rightarrow> bool" where
  "str_endswith s suffix =
     (length suffix \<le> length s \<and> drop (length s - length suffix) s = suffix)"

text \<open>
  \<open>template.format(*args, **kwargs)\<close> for the replacement fields the program uses:
  \<open>{}\<close> takes the next positional argument and \<open>{name}\<close> the keyword argument
  \<open>name\<close>; the substituted text is not scanned again. The second argument is \<open>None\<close>
  outside a field and the field name read so far inside one. Doubled braces,
  conversions and format specifications do not occur in the program's templates and
  are not modelled.
\<close>

fun format_aux ::
  "string list \<Rightarrow> (string \<times> string) list \<Rightarrow> string option \<Rightarrow> string \<Rightarrow> exn + string" where
  "format_aux args kwargs None [] = Inr []"
| "format_aux args kwargs (Some name) [] = Inl ValueError"
| "format_aux args kwargs None (c # cs) =
     (if c = CHR ''{'' then format_aux args kwargs (Some []) cs
      else if c = CHR ''}'' then Inl ValueError
      else (case format_aux args kwargs None cs of
              Inl e \<Rightarrow> Inl e
            | Inr out \<Rightarrow> Inr (c # out)))"
| "format_aux args kwargs (Some name) (c # cs) =
     (if c = CHR ''}''
      then (if name = []
            then (case args of
                    [] \<Rightarrow> Inl IndexError
                  | a # args' \<Rightarrow>
                      (case format_aux args' kwargs None cs of
                         Inl e \<Rightarrow> Inl e
                       | Inr out \<Rightarrow> Inr (a @ out)))
            else (case map_of kwargs name of
                    None \<Rightarrow> Inl KeyError
                  | Some v \<Rightarrow>
                      (case format_aux args kwargs None cs of
                         Inl e \<Rightarrow> Inl e
                       | Inr out \<Rightarrow> Inr (v @ out))))
      else format_aux args kwargs (Some (name @ [c])) cs)"

definition str_format :: "string \<Rightarrow> string list \<Rightarrow> (string \<times> string) list \<Rightarrow> exn + string" where
  "str_format template args kwargs = format_aux args kwargs None template"

text \<open>Comparison of pairs, \<open>(a, b) < (c, d)\<close>: Python compares tuples
  lexicographically.\<close>

definition tuple_less :: "nat \<times> nat \<Rightarrow> nat \<times> nat \<Rightarrow> bool" where
  "tuple_less p q = (fst p < fst q \<or> (fst p = fst q \<and> snd p < snd q))"

text \<open>
  Floating point. \<open>float_round x\<close> is the double nearest to \<open>x > 0\<close>, a tie going to the
  even significand: with \<open>e = float_exponent x\<close> the quotient \<open>x / 2 ^ e\<close> lies from
  \<open>2 ^ 52\<close> up to \<open>2 ^ 53\<close> and is rounded to an integer. The exponent is not bounded
  here; a result of \<open>2 ^ 1024\<close> or more is an overflow, which is dealt with where it
  arises, and the program rounds no number below 1, so that subnormal numbers are
  left out. The division of two integers, the conversion of an integer and the
  product of two floats are each the exact result rounded once.
\<close>

definition round_half_even :: "rat \<Rightarrow> int" where
  "round_half_even x =
     (let f = \<lfloor>x\<rfloor>; d = x - of_int f
      in if d < 1 / 2 then f else if 1 / 2 < d then f + 1 else if even f then f else f + 1)"

definition float_exponent :: "rat \<Rightarrow> int" where
  "float_exponent x =
     (let k = bitlen (fst (quotient_of x)) - bitlen (snd (quotient_of x))
      in (if 2 powi k \<le> x then k else k - 1) - 52)"

definition float_round :: "rat \<Rightarrow> rat" where
  "float_round x =
     (if x \<le> 0 then 0
      else of_int (round_half_even (x / 2 powi float_exponent x)) * 2 powi float_exponent x)"

text \<open>\<open>ceil(side * factor)\<close> for an integer \<open>side\<close> and a float \<open>factor\<close>: the integer is
  converted to a float, which raises \<open>OverflowError\<close> when it is too large; a product
  that overflows is infinite, and \<open>ceil\<close> raises \<open>OverflowError\<close> for it.\<close>

definition ceil_scaled :: "nat \<Rightarrow> rat \<Rightarrow> exn + nat" where
  "ceil_scaled side factor =
     (let a = float_round (of_nat side)
      in if 2 ^ 1024 \<le> a then Inl OverflowError
         else let p = float_round (a * factor)
              in if 2 ^ 1024 \<le> p then Inl OverflowError else Inr (nat \<lceil>p\<rceil>))"


section \<open>class RedditImage\<close>

definition margin :: nat where
  "margin = 10"

definition min_size :: nat where
  "min_size = 500"

definition font_scale_factor :: nat where
  "font_scale_factor = 16"

text \<open>
  \<open>regex_resolution = re.compile(r'\s?\[[0-9]+\s?[xX*\<times>]\s?[0-9]+\]')\<close>.
  \<open>match_resolution s\<close> is the length of the match that starts at the head of \<open>s\<close>,
  if there is one. Every quantifier of the pattern is followed by a character that
  it cannot match itself, so the greedy choice is the only one that can succeed.
\<close>

definition opt_space :: "string \<Rightarrow> nat" where
  "opt_space s = (case s of [] \<Rightarrow> 0 | c # _ \<Rightarrow> if is_space c then 1 else 0)"

definition is_times :: "char \<Rightarrow> bool" where
  "is_times c = (c = CHR ''x'' \<or> c = CHR ''X'' \<or> c = CHR ''*'' \<or> c = CHR 0xD7)"

definition match_resolution :: "string \<Rightarrow> nat option" where
  "match_resolution s =
     (let n0 = opt_space s; s1 = drop n0 s
      in case s1 of
           [] \<Rightarrow> None
         | b # s2 \<Rightarrow>
             if b \<noteq> CHR ''['' then None
             else let d1 = takeWhile is_digit s2; s3 = dropWhile is_digit s2
                  in if d1 = [] then None
                     else let n1 = opt_space s3; s4 = drop n1 s3
                          in case s4 of
                               [] \<Rightarrow> None
                             | x # s5 \<Rightarrow>
                                 if \<not> is_times x then None
                                 else let n2 = opt_space s5; s6 = drop n2 s5;
                                          d2 = takeWhile is_digit s6;
                                          s7 = dropWhile is_digit s6
                                      in if d2 = [] then None
                                         else (case s7 of
                                                 [] \<Rightarrow> None
                                               | e # _ \<Rightarrow>
                                                   if e = CHR '']''
                                                   then Some (n0 + 1 + length d1 + n1 + 1
                                                              + n2 + length d2 + 1)
                                                   else None))"

text \<open>\<open>regex_resolution.sub('', title)\<close>: every match, found from left to right, is
  removed. \<open>skip\<close> counts the characters of the current match still to be dropped.\<close>

fun resolution_sub_aux :: "nat \<Rightarrow> string \<Rightarrow> string" where
  "resolution_sub_aux skip [] = []"
| "resolution_sub_aux skip (c # cs) =
     (if 0 < skip then resolution_sub_aux (skip - 1) cs
      else (case match_resolution (c # cs) of
              Some n \<Rightarrow> resolution_sub_aux (n - 1) cs
            | None \<Rightarrow> c # resolution_sub_aux 0 cs))"

definition regex_resolution_sub :: "string \<Rightarrow> string" where
  "regex_resolution_sub title = resolution_sub_aux 0 title"

text \<open>
  What the program uses of the PIL image that \<open>Image.open\<close> returns: its size, which
  is read from the header of the file, and \<open>img_load\<close>, the exception that the first
  access to the pixels raises, if any. \<open>Image.open\<close> does not decode the pixels; that
  is done when they are first needed, by \<open>resize\<close> or by \<open>paste\<close>.
\<close>

record pil_image =
  img_size :: "nat \<times> nat"
  img_load :: "exn option"

text \<open>
  The object: \<open>_width\<close>, \<open>_height\<close> and \<open>upscaled\<close> as in the class; of the PIL image
  \<open>_image\<close> the model keeps where the source picture was pasted, the text drawn on
  it and \<open>load_error\<close>, the exception that the first access to its pixels raises
  (\<open>None\<close> when there is none or the pixels are decoded); of \<open>_font_title\<close> its size.
\<close>

record reddit_image =
  width :: nat
  height :: nat
  upscaled :: bool
  font_size :: nat
  pasted_at :: "nat \<times> nat"
  drawn :: "((nat \<times> nat) \<times> string) list"
  load_error :: "exn option"

text \<open>
  \<open>RedditImage.__init__\<close>. The division by a side of 0 raises \<open>ZeroDivisionError\<close>;
  the two new sides are computed, the width first, before \<open>resize\<close> is called, which
  decodes the pixels. An image that is not resized is not decoded.
\<close>

definition RedditImage_init :: "pil_image \<Rightarrow> exn + reddit_image" where
  "RedditImage_init img =
     (let w = fst (img_size img); h = snd (img_size img)
      in if tuple_less (img_size img) (min_size, min_size)
         then (case (if w < h
                     then (if w = 0 then Inl ZeroDivisionError
                           else Inr (float_round (of_nat min_size / of_nat w)))
                     else (if h = 0 then Inl ZeroDivisionError
                           else Inr (float_round (of_nat min_size / of_nat h)))) of
                 Inl e \<Rightarrow> Inl e
               | Inr factor \<Rightarrow>
                   (case ceil_scaled w factor of
                      Inl e \<Rightarrow> Inl e
                    | Inr w' \<Rightarrow>
                        (case ceil_scaled h factor of
                           Inl e \<Rightarrow> Inl e
                         | Inr h' \<Rightarrow>
                             (case img_load img of
                                Some e \<Rightarrow> Inl e
                              | None \<Rightarrow>
                                  Inr \<lparr>width = w', height = h', upscaled = True,
                                       font_size = w' div font_scale_factor,
                                       pasted_at = (0, 0), drawn = [],
                                       load_error = None\<rparr>))))
         else Inr \<lparr>width = w, height = h, upscaled = False,
                   font_size = w div font_scale_factor,
                   pasted_at = (0, 0), drawn = [], load_error = img_load img\<rparr>)"

text \<open>
  \<open>ImageFont.truetype(font_file, size).getsize(text)\<close>, the rendered (width, height)
  of a text, belongs to the font file and to PIL; it is a parameter of the model, a
  function of the font size and the text.
\<close>

type_synonym font = "nat \<Rightarrow> string \<Rightarrow> nat \<times> nat"

text \<open>
  \<open>RedditImage._wrap_title\<close>. The Python list \<open>lines\<close>, which is never empty, is
  kept as the lines before the last one (\<open>finished\<close>) and the last one (\<open>cur\<close>):
  \<open>lines = finished @ [cur]\<close>, \<open>lines[-1] = v\<close> replaces \<open>cur\<close> and
  \<open>lines.append(v)\<close> moves \<open>cur\<close> to \<open>finished\<close>.
\<close>

fun wrap_loop ::
  "font \<Rightarrow> reddit_image \<Rightarrow> string list \<Rightarrow> string \<Rightarrow> string list \<Rightarrow> string list \<Rightarrow> string list" where
  "wrap_loop fnt self finished cur line_words [] = finished @ [cur]"
| "wrap_loop fnt self finished cur line_words (word # words) =
     (let line_words1 = line_words @ [word];
          cur1 = str_join '' '' line_words1
      in if fst (fnt (font_size self) cur1) + margin > width self
         then wrap_loop fnt self
                (finished @ [str_strip (slice_to_neg cur1 (length word))]) word [word] words
         else wrap_loop fnt self finished cur1 line_words1 words)"

definition wrap_title :: "font \<Rightarrow> reddit_image \<Rightarrow> string \<Rightarrow> string list" where
  "wrap_title fnt self title =
     filter (\<lambda>line. line \<noteq> []) (wrap_loop fnt self [] [] [] (str_split title))"

text \<open>\<open>RedditImage._split_title\<close>: the scan over the characters of the title, with
  \<open>lines\<close> kept as in \<open>wrap_loop\<close>, then the loop that looks for a line that is too
  long.\<close>

definition all_delimiters :: "char list" where
  "all_delimiters = [CHR '','', CHR '';'', CHR ''.'']"

fun split_loop :: "string list \<Rightarrow> string \<Rightarrow> char option \<Rightarrow> string \<Rightarrow> string list" where
  "split_loop finished cur delimiter [] = finished @ [cur]"
| "split_loop finished cur delimiter (character # rest) =
     (if character = CHR '' '' \<and> cur = [] then split_loop finished cur delimiter rest
      else let cur1 = cur @ [character];
               delimiter1 = (if delimiter = None
                             then (if character \<in> set all_delimiters then Some character
                                   else None)
                             else delimiter)
           in if Some character = delimiter1
              then split_loop (finished @ [cur1]) [] delimiter1 rest
              else split_loop finished cur1 delimiter1 rest)"

fun split_check ::
  "font \<Rightarrow> reddit_image \<Rightarrow> string \<Rightarrow> string list \<Rightarrow> string list \<Rightarrow> string list" where
  "split_check fnt self title lines [] = filter (\<lambda>line. line \<noteq> []) lines"
| "split_check fnt self title lines (line # rest) =
     (if fst (fnt (font_size self) line) + margin > width self
      then wrap_title fnt self title
      else split_check fnt self title lines rest)"

definition split_title :: "font \<Rightarrow> reddit_image \<Rightarrow> string \<Rightarrow> string list" where
  "split_title fnt self title =
     (let lines = split_loop [] [] None title
      in split_check fnt self title lines lines)"

text \<open>\<open>RedditImage.add_title\<close> with the default colours. The new canvas has the
  old picture, and what was drawn on it, pasted below the band of whitespace;
  \<open>paste\<close> decodes the pixels of the old picture and raises what that raises.\<close>

definition add_title :: "font \<Rightarrow> reddit_image \<Rightarrow> string \<Rightarrow> bool \<Rightarrow> exn + reddit_image" where
  "add_title fnt self title0 boot =
     (let title = regex_resolution_sub title0;
          line_height = snd (fnt (font_size self) title) + margin;
          lines = (if boot then split_title fnt self title else wrap_title fnt self title);
          whitespace_height = line_height * length lines + margin
      in case load_error self of
           Some e \<Rightarrow> Inl e
         | None \<Rightarrow>
             Inr (self\<lparr>height := height self + whitespace_height,
                       pasted_at := (0, whitespace_height),
                       drawn := map (\<lambda>(i, line). ((margin, i * line_height + margin), line))
                                    (enumerate 0 lines)
                                @ map (\<lambda>((x, y), t). ((x, y + whitespace_height), t))
                                      (drawn self)\<rparr>))"


section \<open>class Database\<close>

text \<open>
  The two tables, keyed by \<open>id\<close>. Modelled from the spec: the schema, which is not
  part of the repository's source file: \<open>id\<close> is the primary key of both tables,
  \<open>imgur_url\<close> is NULL and \<open>retry\<close> is 0 in a row inserted without them. The
  \<open>timestamp\<close> column, which the program never reads, is left out.

  \<open>submissions\<close> and \<open>messages\<close> are the tables as the connection sees them;
  \<open>committed_submissions\<close> and \<open>committed_messages\<close> are the tables as of the last
  \<open>commit()\<close>.
\<close>

record submission_row =
  row_id :: string
  row_author :: string
  row_title :: string
  row_url :: string
  row_imgur_url :: "string option"
  row_retry :: int

record message_row =
  msg_id :: string
  msg_author :: string
  msg_subject :: string
  msg_body :: string

record database =
  submissions :: "string \<rightharpoonup> submission_row"
  messages :: "string \<rightharpoonup> message_row"
  committed_submissions :: "string \<rightharpoonup> submission_row"
  committed_messages :: "string \<rightharpoonup> message_row"

definition commit :: "database \<Rightarrow> database" where
  "commit d = d\<lparr>committed_submissions := submissions d, committed_messages := messages d\<rparr>"

definition message_exists :: "database \<Rightarrow> string \<Rightarrow> bool" where
  "message_exists d message_id = (messages d message_id \<noteq> None)"

definition message_insert ::
  "database \<Rightarrow> string \<Rightarrow> string \<Rightarrow> string \<Rightarrow> string \<Rightarrow> database \<times> exn option" where
  "message_insert d message_id author subject body =
     (if messages d message_id \<noteq> None then (d, Some IntegrityError)
      else (commit (d\<lparr>messages := (messages d)(message_id \<mapsto>
                        \<lparr>msg_id = message_id, msg_author = author,
                         msg_subject = subject, msg_body = body\<rparr>)\<rparr>), None))"

definition submission_select :: "database \<Rightarrow> string \<Rightarrow> submission_row option" where
  "submission_select d submission_id = submissions d submission_id"

definition submission_insert ::
  "database \<Rightarrow> string \<Rightarrow> string \<Rightarrow> string \<Rightarrow> string \<Rightarrow> database \<times> exn option" where
  "submission_insert d submission_id author title url =
     (if submissions d submission_id \<noteq> None then (d, Some IntegrityError)
      else (commit (d\<lparr>submissions := (submissions d)(submission_id \<mapsto>
                        \<lparr>row_id = submission_id, row_author = author, row_title = title,
                         row_url = url, row_imgur_url = None, row_retry = 0\<rparr>)\<rparr>), None))"

text \<open>\<open>UPDATE submissions SET retry=v WHERE id=?\<close>: no row, no change.\<close>

definition update_retry :: "database \<Rightarrow> string \<Rightarrow> int \<Rightarrow> database" where
  "update_retry d submission_id v =
     (case submissions d submission_id of
        None \<Rightarrow> d
      | Some row \<Rightarrow> d\<lparr>submissions := (submissions d)(submission_id \<mapsto> row\<lparr>row_retry := v\<rparr>)\<rparr>)"

text \<open>\<open>Database.submission_set_retry\<close>. \<open>message\<close> is the id of the message
  object, or \<open>None\<close>. The \<open>TypeError\<close> is raised after the UPDATE has run and before
  \<open>commit()\<close>.\<close>

definition submission_set_retry ::
  "database \<Rightarrow> string \<Rightarrow> bool \<Rightarrow> string option \<Rightarrow> database \<times> exn option" where
  "submission_set_retry d submission_id delete_message message =
     (let d1 = update_retry d submission_id 1
      in if delete_message
         then (case message of
                 None \<Rightarrow> (d1, Some TypeError)
               | Some mid \<Rightarrow> (commit (d1\<lparr>messages := (messages d1)(mid := None)\<rparr>), None))
         else (commit d1, None))"

definition submission_clear_retry :: "database \<Rightarrow> string \<Rightarrow> database" where
  "submission_clear_retry d submission_id = commit (update_retry d submission_id 0)"

definition submission_set_imgur_url :: "database \<Rightarrow> string \<Rightarrow> string \<Rightarrow> database" where
  "submission_set_imgur_url d submission_id imgur_url =
     commit (case submissions d submission_id of
               None \<Rightarrow> d
             | Some row \<Rightarrow>
                 d\<lparr>submissions :=
                     (submissions d)(submission_id \<mapsto> row\<lparr>row_imgur_url := Some imgur_url\<rparr>)\<rparr>)"


section \<open>The outside world\<close>

text \<open>
  What the program reads of a \<open>praw\<close> submission and of the comment that mentioned
  the bot (\<open>source_comment\<close>, a \<open>praw\<close> object, which is true as a condition; \<open>None\<close>
  is false). \<open>sub_author\<close> is \<open>submission.author.name\<close>, \<open>None\<close> when the account is
  deleted.
\<close>

record submission =
  sub_id :: string
  sub_author :: "string option"
  sub_title :: string
  sub_url :: string
  sub_score :: int
  sub_subreddit :: string
  sub_shortlink :: string

record comment =
  comment_id :: string
  comment_author :: string
  comment_subject :: string
  comment_body :: string

record config =
  cfg_album :: "string option"
  cfg_name :: string
  cfg_title :: string
  cfg_description :: string

datatype reply_target = ToComment string | ToSubmission string

text \<open>The calls the processor makes to its collaborators, in the order made.\<close>

datatype call =
    RequestsGet string
  | AddTitle string bool
  | UploadFromPath string config
  | Reply reply_target string

text \<open>The state the program changes: the database, the files in the working
  directory (with the image saved in each) and the calls made so far.\<close>

record world =
  db :: database
  files :: "string \<rightharpoonup> reddit_image"
  calls :: "call list"

text \<open>
  The collaborators, each a function of the calls made before and of its arguments:
  \<^item> \<open>fetch_image\<close> is \<open>requests.get(url)\<close> followed by \<open>Image.open\<close>: the image
    opened, or the exception raised;
  \<^item> \<open>save_result\<close> is \<open>image.save(path)\<close>: the exception raised, if any (a mode
    that the format cannot hold, a side too long for it, a full disk);
  \<^item> \<open>upload_from_path\<close> is \<open>imgur.upload_from_path\<close>: \<open>response['link']\<close>, or the
    exception raised. Modelled from the spec: the exception classes of \<open>imgurpython\<close>,
    which are not part of the repository: the rate-limit error is a kind of its own,
    not a kind of \<open>ImgurClientError\<close>;
  \<^item> \<open>reply_result\<close> is \<open>comment.reply(text)\<close> or \<open>submission.reply(text)\<close>: the
    exception raised, if any.
\<close>

record env =
  fnt :: font
  fetch_image :: "call list \<Rightarrow> string \<Rightarrow> exn + pil_image"
  save_result :: "call list \<Rightarrow> string \<Rightarrow> reddit_image \<Rightarrow> exn option"
  upload_from_path :: "call list \<Rightarrow> string \<Rightarrow> config \<Rightarrow> exn + string"
  reply_result :: "call list \<Rightarrow> reply_target \<Rightarrow> string \<Rightarrow> exn option"

definition add_call :: "world \<Rightarrow> call \<Rightarrow> world" where
  "add_call w c = w\<lparr>calls := calls w @ [c]\<rparr>"


section \<open>RedditImage.upload\<close>

definition path_png :: string where
  "path_png = ''temp.png''"

definition path_jpg :: string where
  "path_jpg = ''temp.jpg''"

text \<open>\<open>os.remove(path)\<close>.\<close>

definition remove_file :: "world \<Rightarrow> string \<Rightarrow> world \<times> exn option" where
  "remove_file w path =
     (if files w path = None then (w, Some FileNotFoundError)
      else (w\<lparr>files := (files w)(path := None)\<rparr>, None))"

text \<open>The \<open>finally\<close> block of \<open>upload\<close>, entered with the pending outcome \<open>r\<close> of the
  \<open>try\<close> statement (a return value or an exception); an exception raised in the
  block replaces it.\<close>

definition upload_finally ::
  "world \<Rightarrow> exn + string option \<Rightarrow> world \<times> (exn + string option)" where
  "upload_finally w r =
     (case remove_file w path_png of
        (w1, Some e) \<Rightarrow> (w1, Inl e)
      | (w1, None) \<Rightarrow>
          (case remove_file w1 path_jpg of
             (w2, Some e) \<Rightarrow> (w2, Inl e)
           | (w2, None) \<Rightarrow> (w2, r)))"

text \<open>\<open>RedditImage.upload\<close>: \<open>Inr (Some link)\<close> is the link returned, \<open>Inr None\<close> the
  return of \<open>None\<close>, \<open>Inl e\<close> an exception that leaves the method. The two calls of
  \<open>save\<close> come before the \<open>try\<close> statement: an exception of theirs leaves the method
  at once. A call of \<open>save\<close> that raises leaves the files as they were.\<close>

definition upload ::
  "env \<Rightarrow> world \<Rightarrow> reddit_image \<Rightarrow> config \<Rightarrow> world \<times> (exn + string option)" where
  "upload ev w self cfg =
     (case save_result ev (calls w) path_png self of
        Some e \<Rightarrow> (w, Inl e)
      | None \<Rightarrow>
          (let w1 = w\<lparr>files := (files w)(path_png \<mapsto> self)\<rparr>
           in case save_result ev (calls w1) path_jpg self of
                Some e \<Rightarrow> (w1, Inl e)
              | None \<Rightarrow>
                  (let w2 = w1\<lparr>files := (files w1)(path_jpg \<mapsto> self)\<rparr>;
                       w3 = add_call w2 (UploadFromPath path_png cfg)
                   in case upload_from_path ev (calls w2) path_png cfg of
                        Inr link \<Rightarrow> upload_finally w3 (Inr (Some link))
                      | Inl e \<Rightarrow>
                          if e = ImgurClientError
                          then (let w4 = add_call w3 (UploadFromPath path_jpg cfg)
                                in case upload_from_path ev (calls w3) path_jpg cfg of
                                     Inr link \<Rightarrow> upload_finally w4 (Inr (Some link))
                                   | Inl e' \<Rightarrow>
                                       if e' = ImgurClientError
                                       then upload_finally w4 (Inr None)
                                       else upload_finally w4 (Inl e'))
                          else upload_finally w3 (Inl e))))"


section \<open>class TitleToImageBot\<close>

definition template :: string where
  "template =
     ''[Image with added title]({image_url})\<newline>\<newline>''
     @ ''{upscaled}---\<newline>\<newline>''
     @ ''summon me with /u/titletoimagebot | ''
     @ ''[feedback](https://reddit.com/message/compose/''
     @ ''?to=TitleToImageBot&subject=feedback%20{submission_id}) | ''
     @ ''[source](https://github.com/gerenook/titletoimagebot)''"

text \<open>\<open>TitleToImageBot._reply_imgur_url\<close>: \<open>Inr True\<close> and \<open>Inr False\<close> are the values
  returned, \<open>Inl e\<close> an exception that leaves the method.\<close>

definition reply_imgur_url ::
  "env \<Rightarrow> world \<Rightarrow> string \<Rightarrow> submission \<Rightarrow> comment option \<Rightarrow> bool \<Rightarrow> world \<times> (exn + bool)" where
  "reply_imgur_url ev w url sbm source_comment upscaled_arg =
     (case str_format template []
             [(''image_url'', url),
              (''upscaled'',
               if upscaled_arg then '' (image was upscaled)\<newline>\<newline>'' else []),
              (''submission_id'', sub_id sbm)] of
        Inl e \<Rightarrow> (w, Inl e)
      | Inr reply \<Rightarrow>
          (let target = (case source_comment of
                           Some c \<Rightarrow> ToComment (comment_id c)
                         | None \<Rightarrow> ToSubmission (sub_id sbm));
               w1 = add_call w (Reply target reply)
           in case reply_result ev (calls w) target reply of
                None \<Rightarrow> (w1\<lparr>db := submission_clear_retry (db w1) (sub_id sbm)\<rparr>, Inr True)
              | Some e \<Rightarrow>
                  if e = APIException
                  then (case submission_set_retry (db w1) (sub_id sbm)
                               (source_comment \<noteq> None) (map_option comment_id source_comment) of
                          (d, Some e') \<Rightarrow> (w1\<lparr>db := d\<rparr>, Inl e')
                        | (d, None) \<Rightarrow> (w1\<lparr>db := d\<rparr>, Inr False))
                  else (w1, Inr False)))"

text \<open>
  \<open>TitleToImageBot._process_submission\<close> returns \<open>None\<close> on every path; the model
  returns the world it leaves and the exception that left the method, if any. The
  logging calls are left out. The method is modelled in two parts: lines 330 to 394
  (\<open>compose_image\<close>: the checks, the database lookup, the download and the title) end
  the call or hand the image on, and lines 395 to 414 (\<open>publish_and_reply\<close>) upload
  it and reply.
\<close>

datatype 'a flow = Continue 'a | Return | Raise exn

definition score_threshold :: int where
  "score_threshold = 500"

definition triggers :: "string list" where
  "triggers = ['','', '';'', ''roses'']"

text \<open>Lines 344 to 366: the check whether the submission was already processed.\<close>

definition check_db :: "world \<Rightarrow> submission \<Rightarrow> comment option \<Rightarrow> string \<Rightarrow> world \<times> unit flow" where
  "check_db w sbm source_comment author =
     (case submission_select (db w) (sub_id sbm) of
        Some result \<Rightarrow>
          if row_retry result \<noteq> 0 \<or> source_comment \<noteq> None then (w, Continue ())
          else (w, Return)
      | None \<Rightarrow>
          (case submission_insert (db w) (sub_id sbm) author (sub_title sbm) (sub_url sbm) of
             (d, Some e) \<Rightarrow> (w\<lparr>db := d\<rparr>, Raise e)
           | (d, None) \<Rightarrow> (w\<lparr>db := d\<rparr>, Continue ())))"

text \<open>Lines 378 to 388: the download, tried again with \<open>.jpg\<close> appended.\<close>

definition download :: "env \<Rightarrow> world \<Rightarrow> string \<Rightarrow> world \<times> pil_image flow" where
  "download ev w url =
     (let w1 = add_call w (RequestsGet url)
      in case fetch_image ev (calls w) url of
           Inr img \<Rightarrow> (w1, Continue img)
         | Inl e \<Rightarrow>
             if e = OSError
             then (let w2 = add_call w1 (RequestsGet (url @ ''.jpg''))
                   in case fetch_image ev (calls w1) (url @ ''.jpg'') of
                        Inr img \<Rightarrow> (w2, Continue img)
                      | Inl e' \<Rightarrow> if e' = OSError then (w2, Return) else (w2, Raise e'))
             else (w1, Raise e))"

definition compose_image ::
  "env \<Rightarrow> world \<Rightarrow> submission \<Rightarrow> comment option \<Rightarrow> string option
     \<Rightarrow> world \<times> (string \<times> reddit_image) flow" where
  "compose_image ev w sbm source_comment custom_title =
     (case sub_author sbm of
        None \<Rightarrow> (w, Return)
      | Some author \<Rightarrow>
          if sub_subreddit sbm = ''fakehistoryporn'' \<and> source_comment = None
             \<and> sub_score sbm < score_threshold
          then (w, Return)
          else (case check_db w sbm source_comment author of
                  (w1, Return) \<Rightarrow> (w1, Return)
                | (w1, Raise e) \<Rightarrow> (w1, Raise e)
                | (w1, Continue _) \<Rightarrow>
                    (let boot = (sub_subreddit sbm = ''boottoobig'')
                     in if boot \<and> source_comment = None
                           \<and> \<not> list_ex (\<lambda>t. str_contains t (str_lower (sub_title sbm))) triggers
                        then (w1, Return)
                        else if str_endswith (sub_url sbm) ''.gif''
                                \<or> str_endswith (sub_url sbm) ''.gifv''
                        then (w1, Return)
                        else (case download ev w1 (sub_url sbm) of
                                (w2, Return) \<Rightarrow> (w2, Return)
                              | (w2, Raise e) \<Rightarrow> (w2, Raise e)
                              | (w2, Continue img) \<Rightarrow>
                                  (case RedditImage_init img of
                                     Inl e \<Rightarrow> (w2, Raise e)
                                   | Inr rimage \<Rightarrow>
                                       (let t = (case custom_title of
                                                   None \<Rightarrow> sub_title sbm
                                                 | Some ct \<Rightarrow>
                                                     if ct \<noteq> [] then ct else sub_title sbm)
                                        in case add_title (fnt ev) rimage t boot of
                                             Inl e \<Rightarrow>
                                               (add_call w2 (AddTitle t boot), Raise e)
                                           | Inr titled \<Rightarrow>
                                               (add_call w2 (AddTitle t boot),
                                                Continue (author, titled))))))))"

text \<open>The dictionary \<open>imgur_config\<close> of lines 396 to 401.\<close>

definition imgur_config :: "submission \<Rightarrow> string \<Rightarrow> exn + config" where
  "imgur_config sbm author =
     (case str_format (CHR 0x22 # ''{}'' @ CHR 0x22 # '' by /u/{}'')
             [sub_title sbm, author] [] of
        Inl e \<Rightarrow> Inl e
      | Inr t \<Rightarrow> Inr \<lparr>cfg_album = None, cfg_name = sub_id sbm, cfg_title = t,
                      cfg_description = sub_shortlink sbm\<rparr>)"

definition publish_and_reply ::
  "env \<Rightarrow> world \<Rightarrow> submission \<Rightarrow> comment option \<Rightarrow> string \<Rightarrow> reddit_image
     \<Rightarrow> world \<times> exn option" where
  "publish_and_reply ev w sbm source_comment author rimage =
     (case imgur_config sbm author of
        Inl e \<Rightarrow> (w, Some e)
      | Inr cfg \<Rightarrow>
          (case upload ev w rimage cfg of
             (w1, Inl e) \<Rightarrow>
               if e = ImgurClientRateLimitError
               then (case submission_set_retry (db w1) (sub_id sbm)
                            (source_comment \<noteq> None) (map_option comment_id source_comment) of
                       (d, r) \<Rightarrow> (w1\<lparr>db := d\<rparr>, r))
               else (w1, Some e)
           | (w1, Inr None) \<Rightarrow> (w1, None)
           | (w1, Inr (Some imgur_url)) \<Rightarrow>
               if imgur_url = [] then (w1, None)
               else (let w2 = w1\<lparr>db := submission_set_imgur_url (db w1) (sub_id sbm) imgur_url\<rparr>
                     in case reply_imgur_url ev w2 imgur_url sbm source_comment
                               (upscaled rimage) of
                          (w3, Inl e) \<Rightarrow> (w3, Some e)
                        | (w3, Inr _) \<Rightarrow> (w3, None))))"

definition process_submission ::
  "env \<Rightarrow> world \<Rightarrow> submission \<Rightarrow> comment option \<Rightarrow> string option \<Rightarrow> world \<times> exn option" where
  "process_submission ev w sbm source_comment custom_title =
     (case compose_image ev w sbm source_comment custom_title of
        (w1, Return) \<Rightarrow> (w1, None)
      | (w1, Raise e) \<Rightarrow> (w1, Some e)
      | (w1, Continue (author, rimage)) \<Rightarrow>
          publish_and_reply ev w1 sbm source_comment author rimage)"


section \<open>Notions used in the statements\<close>

text \<open>A word as \<open>str.split()\<close> returns it: not empty and free of whitespace.\<close>

definition is_word :: "string \<Rightarrow> bool" where
  "is_word w = (w \<noteq> [] \<and> list_all (\<lambda>c. \<not> is_space c) w)"

text \<open>The test of both layout loops: the rendered width of a line, plus the margin,
  exceeds the width of the image.\<close>

definition too_long :: "font \<Rightarrow> reddit_image \<Rightarrow> string \<Rightarrow> bool" where
  "too_long f self line = (fst (f (font_size self) line) + margin > width self)"

text \<open>
  The segmentation of DELIMITED mode in the words of the specification: the delimiter
  is the first of the three characters that occurs in the text
  (\<open>first_delimiter\<close>); every occurrence of that character ends the current line and
  starts a new one, no other character does (\<open>cut_after\<close>); the spaces in front of
  a line are dropped (\<open>drop_spaces\<close>).
\<close>

definition first_delimiter :: "string \<Rightarrow> char option" where
  "first_delimiter text = find (\<lambda>c. c \<in> set all_delimiters) text"

fun cons_first :: "char \<Rightarrow> string list \<Rightarrow> string list" where
  "cons_first c [] = [[c]]"
| "cons_first c (l # ls) = (c # l) # ls"

fun cut_after :: "char option \<Rightarrow> string \<Rightarrow> string list" where
  "cut_after d [] = [[]]"
| "cut_after d (c # cs) =
     (if Some c = d then [c] # cut_after d cs else cons_first c (cut_after d cs))"

definition drop_spaces :: "string \<Rightarrow> string" where
  "drop_spaces l = dropWhile (\<lambda>c. c = CHR '' '') l"

definition delimited_lines :: "string \<Rightarrow> string list" where
  "delimited_lines text = map drop_spaces (cut_after (first_delimiter text) text)"


text \<open>The lines of \<open>split_loop\<close> in terms of the pieces still to come: the first
  piece continues the current line.\<close>

fun glue :: "string \<Rightarrow> string list \<Rightarrow> string list" where
  "glue cur [] = [cur]"
| "glue cur (l # ls) = (if cur = [] then drop_spaces l else cur @ l) # map drop_spaces ls"

text \<open>The state of \<open>upload\<close> after both files are saved, and the state it leaves
  after the calls \<open>cs\<close>.\<close>

definition saved :: "world \<Rightarrow> reddit_image \<Rightarrow> world" where
  "saved w self = w\<lparr>files := (files w)(path_png \<mapsto> self, path_jpg \<mapsto> self)\<rparr>"

definition cleaned :: "world \<Rightarrow> call list \<Rightarrow> world" where
  "cleaned w cs =
     w\<lparr>files := (files w)(path_png := None, path_jpg := None), calls := calls w @ cs\<rparr>"

text \<open>The text of the reply as \<open>_reply_imgur_url\<close> renders it.\<close>

definition reply_text :: "string \<Rightarrow> string \<Rightarrow> bool \<Rightarrow> string" where
  "reply_text url submission_id up =
     ''[Image with added title]('' @ url @ '')\<newline>\<newline>''
     @ (if up then '' (image was upscaled)\<newline>\<newline>'' else [])
     @ ''---\<newline>\<newline>summon me with /u/titletoimagebot | ''
     @ ''[feedback](https://reddit.com/message/compose/''
     @ ''?to=TitleToImageBot&subject=feedback%20'' @ submission_id @ '') | ''
     @ ''[source](https://github.com/gerenook/titletoimagebot)''"

definition reply_target_of :: "submission \<Rightarrow> comment option \<Rightarrow> reply_target" where
  "reply_target_of sbm source_comment =
     (case source_comment of
        Some c \<Rightarrow> ToComment (comment_id c)
      | None \<Rightarrow> ToSubmission (sub_id sbm))"


section \<open>Concrete inputs\<close>

text \<open>A font in which every character is 10 wide and 20 high, whatever its size.\<close>

definition example_font :: font where
  "example_font = (\<lambda>size s. (10 * length s, 20))"

definition example_image :: reddit_image where
  "example_image = \<lparr>width = 600, height = 600, upscaled = False, font_size = 37,
                     pasted_at = (0, 0), drawn = [], load_error = None\<rparr>"

text \<open>An image 100 wide, on which ten characters do not fit.\<close>

definition example_narrow_image :: reddit_image where
  "example_narrow_image = \<lparr>width = 100, height = 600, upscaled = False, font_size = 6,
                            pasted_at = (0, 0), drawn = [], load_error = None\<rparr>"

text \<open>The example image with the title \<open>A cat\<close> added.\<close>

definition example_titled_image :: reddit_image where
  "example_titled_image = \<lparr>width = 600, height = 640, upscaled = False, font_size = 37,
                            pasted_at = (0, 40), drawn = [((10, 10), ''A cat'')],
                            load_error = None\<rparr>"

definition example_submission :: submission where
  "example_submission =
     \<lparr>sub_id = ''abc'', sub_author = Some ''bob'', sub_title = ''A cat'',
      sub_url = ''http://i/cat.png'', sub_score = 7, sub_subreddit = ''pics'',
      sub_shortlink = ''http://r/abc''\<rparr>"

definition example_config :: config where
  "example_config =
     \<lparr>cfg_album = None, cfg_name = ''abc'',
      cfg_title = CHR 0x22 # ''A cat'' @ CHR 0x22 # '' by /u/bob'',
      cfg_description = ''http://r/abc''\<rparr>"

definition example_comment :: comment where
  "example_comment =
     \<lparr>comment_id = ''m1'', comment_author = ''eve'', comment_subject = ''username mention'',
      comment_body = ''u/titletoimagebot''\<rparr>"

definition example_row :: submission_row where
  "example_row =
     \<lparr>row_id = ''abc'', row_author = ''bob'', row_title = ''A cat'',
      row_url = ''http://i/cat.png'', row_imgur_url = None, row_retry = 0\<rparr>"

definition example_message :: message_row where
  "example_message =
     \<lparr>msg_id = ''m1'', msg_author = ''eve'', msg_subject = ''username mention'',
      msg_body = ''u/titletoimagebot''\<rparr>"

text \<open>A database that holds the example submission, not marked for a retry, and the
  example message; nothing is uncommitted.\<close>

definition example_database :: database where
  "example_database =
     \<lparr>submissions = [''abc'' \<mapsto> example_row], messages = [''m1'' \<mapsto> example_message],
      committed_submissions = [''abc'' \<mapsto> example_row],
      committed_messages = [''m1'' \<mapsto> example_message]\<rparr>"

definition example_world :: world where
  "example_world = \<lparr>db = example_database, files = Map.empty, calls = []\<rparr>"

text \<open>Collaborators that always succeed; two image hosts that fail: one refuses the
  PNG with a client error and takes the JPG, one is over its rate limit; and a
  working directory in which \<open>temp.jpg\<close> cannot be written.\<close>

definition example_env :: env where
  "example_env =
     \<lparr>fnt = example_font,
      fetch_image = (\<lambda>cs url. Inr \<lparr>img_size = (600, 600), img_load = None\<rparr>),
      save_result = (\<lambda>cs path im. None),
      upload_from_path = (\<lambda>cs path cfg. Inr ''http://imgur/1''),
      reply_result = (\<lambda>cs target t. None)\<rparr>"

definition example_env_png_refused :: env where
  "example_env_png_refused =
     example_env\<lparr>upload_from_path :=
       (\<lambda>cs path cfg. if path = path_png then Inl ImgurClientError
                        else Inr ''http://imgur/2'')\<rparr>"

definition example_env_rate_limit :: env where
  "example_env_rate_limit =
     example_env\<lparr>upload_from_path := (\<lambda>cs path cfg. Inl ImgurClientRateLimitError)\<rparr>"

definition example_env_jpg_unwritable :: env where
  "example_env_jpg_unwritable =
     example_env\<lparr>save_result := (\<lambda>cs path im. if path = path_jpg then Some OSError else None)\<rparr>"


section \<open>Rounding to a double\<close>

lemma bitlen_powi_bounds:
  assumes "0 < p"
  shows "(2::rat) powi (bitlen p - 1) \<le> of_int p" "of_int p < (2::rat) powi bitlen p"
proof -
  from assms have b: "1 \<le> bitlen p" by (auto simp: bitlen_alt_def)
  have lo: "2 ^ nat (bitlen p - 1) \<le> p" and hi: "p < 2 ^ nat (bitlen p)"
    using bitlen_bounds [OF assms] by simp_all
  have "(2::rat) powi (bitlen p - 1) = of_int (2 ^ nat (bitlen p - 1))"
    using b by (simp add: power_int_def)
  also have "\<dots> \<le> of_int p" using lo by (subst of_int_le_iff)
  finally show "(2::rat) powi (bitlen p - 1) \<le> of_int p" .
  have "(of_int p :: rat) < of_int (2 ^ nat (bitlen p))"
    using hi by (subst of_int_less_iff)
  also have "\<dots> = 2 powi bitlen p"
    using b by (simp add: power_int_def)
  finally show "of_int p < (2::rat) powi bitlen p" .
qed

text \<open>
  The exponent that \<open>float_exponent\<close> finds puts the number between \<open>2 ^ 52\<close> and
  \<open>2 ^ 53\<close> times the unit, and it is the only one that does.
\<close>

lemma float_exponent_bounds:
  assumes "0 < x"
  shows "2 powi (float_exponent x + 52) \<le> x" "x < 2 powi (float_exponent x + 53)"
proof -
  define p where "p = fst (quotient_of x)"
  define q where "q = snd (quotient_of x)"
  define k where "k = bitlen p - bitlen q"
  have q: "0 < q" by (simp add: q_def quotient_of_denom_pos')
  have x: "x = of_int p / of_int q"
    by (rule quotient_of_div) (simp add: p_def q_def)
  have p: "0 < p"
    using assms q x by (simp add: zero_less_divide_iff)
  note P = bitlen_powi_bounds [OF p] and Q = bitlen_powi_bounds [OF q]
  have q': "(0::rat) < of_int q" using q by simp
  have pw: "(0::rat) < 2 powi n" for n by (simp add: zero_less_power_int)
  have "2 powi (k - 1) = (2::rat) powi (bitlen p - 1) / 2 powi bitlen q"
    by (simp add: k_def power_int_diff [symmetric] algebra_simps)
  also have "\<dots> \<le> of_int p / 2 powi bitlen q"
    using P(1) pw by (simp add: divide_right_mono)
  also have "\<dots> \<le> of_int p / of_int q"
    using Q(2) q' p by (intro divide_left_mono) (simp_all add: pw)
  finally have lo: "2 powi (k - 1) \<le> x" by (simp add: x)
  have "x = of_int p / of_int q" by (rule x)
  also have "\<dots> < 2 powi bitlen p / of_int q"
    using P(2) q' by (simp add: divide_strict_right_mono)
  also have "\<dots> \<le> 2 powi bitlen p / 2 powi (bitlen q - 1)"
    using Q(1) q' by (intro divide_left_mono) (simp_all add: pw less_imp_le)
  also have "\<dots> = 2 powi (k + 1)"
    by (simp add: k_def power_int_diff [symmetric] algebra_simps)
  finally have hi: "x < 2 powi (k + 1)" .
  have e: "float_exponent x = (if 2 powi k \<le> x then k else k - 1) - 52"
    by (simp add: float_exponent_def Let_def k_def p_def q_def)
  show "2 powi (float_exponent x + 52) \<le> x"
    using lo by (simp add: e)
  show "x < 2 powi (float_exponent x + 53)"
    using hi by (auto simp: e not_le algebra_simps)
qed

lemma round_half_even_bounds:
  "x - 1 / 2 \<le> of_int (round_half_even x)" "of_int (round_half_even x) \<le> x + 1 / 2"
  unfolding round_half_even_def Let_def by (auto; linarith)+

text \<open>
  Rounding loses at most one part in \<open>2 ^ 53\<close>.
\<close>

lemma float_round_lower:
  assumes "0 < x"
  shows "x * (1 - 1 / 2 ^ 53) \<le> float_round x"
proof -
  define P :: rat where "P = 2 powi float_exponent x"
  define m :: rat where "m = of_int (round_half_even (x / P))"
  have P: "0 < P" by (simp add: P_def zero_less_power_int)
  have "2 powi (float_exponent x + 52) \<le> x"
    by (rule float_exponent_bounds [OF assms])
  then have "P * 2 ^ 52 \<le> x"
    by (simp add: power_int_add P_def)
  then have half: "P / 2 \<le> x / 2 ^ 53"
    by simp
  have "x / P - 1 / 2 \<le> m"
    unfolding m_def by (rule round_half_even_bounds)
  then have "(x / P - 1 / 2) * P \<le> m * P"
    using P by (simp add: mult_right_mono)
  moreover have "(x / P - 1 / 2) * P = x - P / 2"
    using P by (simp add: field_simps)
  moreover have "float_round x = m * P"
    using assms by (simp add: float_round_def m_def P_def)
  ultimately have "x - P / 2 \<le> float_round x" by simp
  with half have "x - x / 2 ^ 53 \<le> float_round x" by linarith
  then show ?thesis by (simp add: algebra_simps)
qed

lemma float_exponent_unique:
  assumes "0 < x" "2 powi (e + 52) \<le> x" "x < 2 powi (e + 53)"
  shows "float_exponent x = e"
proof (rule ccontr)
  assume ne: "float_exponent x \<noteq> e"
  note b = float_exponent_bounds [OF assms(1)]
  show False
  proof (cases "float_exponent x < e")
    case True
    then have "(2::rat) powi (float_exponent x + 53) \<le> 2 powi (e + 52)"
      by (intro power_int_increasing) simp_all
    with b(2) assms(2) show False by simp
  next
    case False
    with ne have "(2::rat) powi (e + 53) \<le> 2 powi (float_exponent x + 52)"
      by (intro power_int_increasing) simp_all
    with b(1) assms(3) show False by simp
  qed
qed

lemma float_round_eqI:
  assumes "0 < x" "2 powi (e + 52) \<le> x" "x < 2 powi (e + 53)"
    and "of_int (round_half_even (x / 2 powi e)) * 2 powi e = y"
  shows "float_round x = y"
  using assms float_exponent_unique [OF assms(1-3)] by (simp add: float_round_def)

lemma float_round_eq_half_even:
  assumes "0 < x" "2 powi (e + 52) \<le> x" "x < 2 powi (e + 53)"
    and "\<lfloor>x / 2 powi e\<rfloor> = f"
    and "if x / 2 powi e - of_int f < 1 / 2 then m = f
         else if 1 / 2 < x / 2 powi e - of_int f then m = f + 1
         else m = (if even f then f else f + 1)"
    and "of_int m * 2 powi e = y"
  shows "float_round x = y"
proof -
  have "round_half_even (x / 2 powi e) = m"
    using assms(4,5) by (auto simp: round_half_even_def Let_def split: if_splits)
  then show ?thesis
    using assms(1-3,6) by (intro float_round_eqI [where e = e]) simp_all
qed


section \<open>The upscaling of small images\<close>

text \<open>
  An image 240 wide and 320 high becomes 501 wide and 667 high: 500 / 240 is rounded
  up, and 240 times the rounded factor is just above 500.
\<close>

lemma float_25_12: "float_round (25 / 12) = 4691249611844267 / 2251799813685248"
  by (rule float_round_eq_half_even
        [where e = "- 51" and f = 4691249611844266 and m = 4691249611844267])
     (simp_all add: power_int_minus floor_eq_iff)

lemma float_240: "float_round 240 = 240"
  by (rule float_round_eq_half_even
        [where e = "- 45" and f = "240 * 2 ^ 45" and m = "240 * 2 ^ 45"])
     (simp_all add: power_int_minus floor_eq_iff)

lemma float_320: "float_round 320 = 320"
  by (rule float_round_eq_half_even
        [where e = "- 44" and f = "320 * 2 ^ 44" and m = "320 * 2 ^ 44"])
     (simp_all add: power_int_minus floor_eq_iff)

lemma float_240_product:
  "float_round (70368744177664005 / 140737488355328)
     = 8796093022208001 / 17592186044416"
  by (rule float_round_eq_half_even
        [where e = "- 44" and f = 8796093022208000 and m = 8796093022208001])
     (simp_all add: power_int_minus floor_eq_iff)

lemma float_320_product:
  "float_round (23456248059221335 / 35184372088832)
     = 2932031007402667 / 4398046511104"
  by (rule float_round_eq_half_even
        [where e = "- 43" and f = 5864062014805333 and m = 5864062014805334])
     (simp_all add: power_int_minus floor_eq_iff)

lemma RedditImage_init_240_320:
  "RedditImage_init \<lparr>img_size = (240, 320), img_load = None\<rparr>
     = Inr \<lparr>width = 501, height = 667, upscaled = True, font_size = 31,
            pasted_at = (0, 0), drawn = [], load_error = None\<rparr>"
proof -
  have "\<lceil>8796093022208001 / 17592186044416 :: rat\<rceil> = 501"
    and "\<lceil>2932031007402667 / 4398046511104 :: rat\<rceil> = 667"
    by (simp_all add: ceiling_eq_iff)
  then show ?thesis
    by (simp add: RedditImage_init_def tuple_less_def min_size_def font_scale_factor_def
        ceil_scaled_def float_25_12 float_240 float_320 float_240_product float_320_product)
qed

lemma RedditImage_init_not_less:
  "\<not> tuple_less (w, h) (min_size, min_size) \<Longrightarrow>
     RedditImage_init \<lparr>img_size = (w, h), img_load = l\<rparr> =
       Inr \<lparr>width = w, height = h, upscaled = False, font_size = w div font_scale_factor,
            pasted_at = (0, 0), drawn = [], load_error = l\<rparr>"
  by (simp add: RedditImage_init_def)

text \<open>
  An image of at least 500 by 500 keeps its size and is not marked as upscaled.
\<close>

lemma RedditImage_init_large:
  "min_size \<le> w \<Longrightarrow> min_size \<le> h \<Longrightarrow>
     RedditImage_init \<lparr>img_size = (w, h), img_load = l\<rparr> =
       Inr \<lparr>width = w, height = h, upscaled = False, font_size = w div font_scale_factor,
            pasted_at = (0, 0), drawn = [], load_error = l\<rparr>"
  by (rule RedditImage_init_not_less) (auto simp: tuple_less_def)

text \<open>
  When the comparison of the size with (500, 500) holds, that is when the width is
  below 500, or is 500 with the height below 500, and the constructor returns, the
  image is marked as upscaled and both sides have reached 500: the factor belongs to
  the shorter side, and rounding cannot take the product down to 499.
\<close>

lemma ceil_scaled_min_size:
  assumes "ceil_scaled side (float_round (of_nat min_size / of_nat s)) = Inr n"
    and "0 < s" "s \<le> side"
  shows "min_size \<le> n"
proof -
  define u :: rat where "u = 1 - 1 / 2 ^ 53"
  define a where "a = float_round (of_nat side)"
  define fac where "fac = float_round (of_nat min_size / of_nat s)"
  define p where "p = float_round (a * fac)"
  have u: "0 < u" by (simp add: u_def)
  have s: "(0::rat) < of_nat s" "(of_nat s :: rat) \<le> of_nat side"
    using assms(2,3) by simp_all
  have "of_nat s * u \<le> of_nat side * u"
    using s u by (simp add: mult_right_mono)
  also have "\<dots> \<le> a"
    unfolding a_def u_def using s by (intro float_round_lower) simp
  finally have a: "of_nat s * u \<le> a" .
  have fac: "of_nat min_size / of_nat s * u \<le> fac"
    unfolding fac_def u_def using s by (intro float_round_lower) (simp add: min_size_def)
  have a0: "0 < a"
    using mult_pos_pos [OF s(1) u] a by simp
  have c0: "0 \<le> of_nat min_size / of_nat s * u"
    using s u by simp
  have "(of_nat s * u) * (of_nat min_size / of_nat s * u) \<le> a * fac"
    using a fac a0 c0 by (intro mult_mono) simp_all
  moreover have "(of_nat s * u) * (of_nat min_size / of_nat s * u) = of_nat min_size * u * u"
    using s by simp
  ultimately have prod: "of_nat min_size * u * u \<le> a * fac" by simp
  have "(0::rat) < of_nat min_size * u * u"
    using u by (simp add: min_size_def)
  with prod have pos: "0 < a * fac" by simp
  have "of_nat min_size * u * u * u \<le> a * fac * u"
    using prod u by (simp add: mult_right_mono)
  also have "\<dots> \<le> p"
    unfolding p_def u_def by (rule float_round_lower [OF pos])
  finally have "of_nat min_size * u * u * u \<le> p" .
  moreover have "(of_nat min_size - 1 :: rat) < of_nat min_size * u * u * u"
    by (simp add: min_size_def u_def)
  ultimately have "of_int (int min_size - 1) < p"
    by simp
  then have "int min_size - 1 < \<lceil>p\<rceil>"
    by (simp add: less_ceiling_iff)
  moreover have "n = nat \<lceil>p\<rceil>"
    using assms(1) by (simp add: ceil_scaled_def Let_def a_def fac_def p_def split: if_splits)
  ultimately show ?thesis by linarith
qed

lemma RedditImage_init_small:
  assumes "RedditImage_init img = Inr r"
    and "tuple_less (img_size img) (min_size, min_size)"
  shows "upscaled r \<and> min_size \<le> width r \<and> min_size \<le> height r"
proof (cases "fst (img_size img) < snd (img_size img)")
  case True
  with assms show ?thesis
    by (auto simp: RedditImage_init_def Let_def split: if_splits sum.splits option.splits
        intro: ceil_scaled_min_size)
next
  case False
  with assms show ?thesis
    by (auto simp: RedditImage_init_def Let_def split: if_splits sum.splits option.splits
        intro: ceil_scaled_min_size)
qed

text \<open>
  C1. An image with a side below 500 is to be upscaled until both sides are at least
  500, and marked as upscaled. The constructor compares the size with (500, 500) as
  a pair, so the width decides alone unless it is exactly 500: an image 600 wide and
  100 high is left as it is, with a height of 100 and \<open>upscaled\<close> false.
\<close>

theorem RedditImage_init_wide_low_image:
  "RedditImage_init \<lparr>img_size = (600, 100), img_load = l\<rparr> =
     Inr \<lparr>width = 600, height = 100, upscaled = False, font_size = 37,
          pasted_at = (0, 0), drawn = [], load_error = l\<rparr>"
  by (simp add: RedditImage_init_def tuple_less_def min_size_def font_scale_factor_def)

section \<open>Words, joins and strips\<close>

lemma str_split_aux_append_word:
  "list_all (\<lambda>c. \<not> is_space c) u \<Longrightarrow> str_split_aux cur (u @ s) = str_split_aux (cur @ u) s"
  by (induction u arbitrary: cur) auto

lemma str_split_aux_words:
  "list_all (\<lambda>c. \<not> is_space c) cur \<Longrightarrow> list_all is_word (str_split_aux cur s)"
  by (induction s arbitrary: cur) (auto simp: is_word_def)

lemma str_split_words: "list_all is_word (str_split s)"
  by (simp add: str_split_def str_split_aux_words)

lemma str_split_aux_join:
  "list_all is_word ws \<Longrightarrow> str_split_aux [] (str_join '' '' ws) = ws"
proof (induction "'' ''" ws rule: str_join.induct)
  case 1
  then show ?case by simp
next
  case (2 w)
  then show ?case
    using str_split_aux_append_word [of w "[]" "[]"] by (simp add: is_word_def)
next
  case (3 w v ws)
  have sp: "is_space CHR '' ''" by (simp add: is_space_def)
  from 3 have w: "w \<noteq> []" "list_all (\<lambda>c. \<not> is_space c) w"
    by (simp_all add: is_word_def)
  have "str_split_aux [] (w @ '' '' @ str_join '' '' (v # ws))
        = str_split_aux w ('' '' @ str_join '' '' (v # ws))"
    using str_split_aux_append_word [OF w(2), of "[]"] by simp
  also have "\<dots> = w # str_split_aux [] (str_join '' '' (v # ws))"
    using w(1) sp by simp
  finally show ?case using 3 by simp
qed

lemma str_split_join: "list_all is_word ws \<Longrightarrow> str_split (str_join '' '' ws) = ws"
  by (simp add: str_split_def str_split_aux_join)

lemma str_split_Nil: "str_split [] = []"
  by (simp add: str_split_def)

lemma str_join_snoc:
  "str_join sep (ws @ [w]) = (if ws = [] then w else str_join sep ws @ sep @ w)"
  by (induction sep ws rule: str_join.induct) auto

lemma is_word_hd_last: "is_word w \<Longrightarrow> \<not> is_space (hd w) \<and> \<not> is_space (last w)"
  by (simp add: is_word_def list_all_iff)

lemma str_join_words_hd_last:
  "list_all is_word ws \<Longrightarrow> ws \<noteq> [] \<Longrightarrow>
     str_join '' '' ws \<noteq> [] \<and> \<not> is_space (hd (str_join '' '' ws))
       \<and> \<not> is_space (last (str_join '' '' ws))"
proof (induction "'' ''" ws rule: str_join.induct)
  case 1
  then show ?case by simp
next
  case (2 w)
  then show ?case
    using is_word_hd_last [of w] by (simp add: is_word_def)
next
  case (3 w v ws)
  then show ?case
    using is_word_hd_last [of w] by (simp add: is_word_def)
qed

lemma str_strip_trailing_space:
  assumes "s \<noteq> []" "\<not> is_space (hd s)" "\<not> is_space (last s)"
  shows "str_strip (s @ '' '') = s"
proof -
  have sp: "is_space CHR '' ''" by (simp add: is_space_def)
  obtain c cs where s: "s = c # cs" using assms(1) by (cases s) auto
  obtain bs b where s': "s = bs @ [b]" using assms(1) by (cases s rule: rev_cases) auto
  have "dropWhile is_space (s @ '' '') = s @ '' ''"
    using assms(2) s by simp
  moreover have "dropWhile is_space (rev (s @ '' '')) = rev s"
    using assms(3) s' sp by simp
  ultimately show ?thesis by (simp add: str_strip_def)
qed

lemma str_strip_Nil: "str_strip [] = []"
  by (simp add: str_strip_def)

text \<open>
  What \<open>_wrap_title\<close> does to a line that has become too long: cutting the last
  word off the joined words and stripping the rest gives the words before it, joined.
\<close>

lemma strip_slice_join:
  assumes "list_all is_word ws" "is_word word"
  shows "str_strip (slice_to_neg (str_join '' '' (ws @ [word])) (length word))
         = str_join '' '' ws"
proof (cases "ws = []")
  case True
  then show ?thesis
    using assms(2) by (simp add: slice_to_neg_def is_word_def str_strip_Nil)
next
  case False
  have "slice_to_neg (str_join '' '' (ws @ [word])) (length word) = str_join '' '' ws @ '' ''"
    using False assms(2) by (simp add: str_join_snoc slice_to_neg_def is_word_def)
  then show ?thesis
    using str_join_words_hd_last [OF assms(1) False] str_strip_trailing_space by simp
qed

section \<open>WRAPPED mode\<close>

lemma wrap_loop_step:
  assumes "list_all is_word line_words" "is_word word"
  shows "wrap_loop f self finished cur line_words (word # words) =
           (if too_long f self (str_join '' '' (line_words @ [word]))
            then wrap_loop f self (finished @ [str_join '' '' line_words]) word [word] words
            else wrap_loop f self finished (str_join '' '' (line_words @ [word]))
                   (line_words @ [word]) words)"
  using strip_slice_join [OF assms] by (simp add: Let_def too_long_def)

text \<open>
  The invariant of the loop: \<open>cur\<close> is \<open>line_words\<close> joined, and it fits unless it is
  one word; every finished line fits, is empty or is one of the words.
\<close>

lemma wrap_loop_lines:
  assumes "list_all is_word line_words" "list_all is_word words"
    and "cur = str_join '' '' line_words"
    and "\<not> too_long f self cur \<or> length line_words \<le> 1"
    and "\<forall>l \<in> set finished. \<not> too_long f self l \<or> l = [] \<or> l \<in> A"
    and "set line_words \<union> set words \<subseteq> A"
  shows "\<forall>l \<in> set (wrap_loop f self finished cur line_words words).
           \<not> too_long f self l \<or> l = [] \<or> l \<in> A"
  using assms
proof (induction words arbitrary: finished cur line_words)
  case Nil
  have "\<not> too_long f self cur \<or> cur = [] \<or> cur \<in> A"
  proof (cases line_words)
    case Nil
    with Nil.prems(3) show ?thesis by simp
  next
    case (Cons w ws)
    show ?thesis
    proof (cases ws)
      case Nil
      with Cons Nil.prems(3,6) show ?thesis by simp
    next
      case (Cons v vs)
      with \<open>line_words = w # ws\<close> Nil.prems(4) show ?thesis by simp
    qed
  qed
  with Nil.prems(5) show ?case by auto
next
  case (Cons word words)
  have word: "is_word word" and words: "list_all is_word words"
    using Cons.prems(2) by simp_all
  have cur_ok: "\<not> too_long f self cur \<or> cur = [] \<or> cur \<in> A"
  proof (cases line_words)
    case Nil
    with Cons.prems(3) show ?thesis by simp
  next
    case (Cons w ws)
    show ?thesis
    proof (cases ws)
      case Nil
      with Cons \<open>cur = str_join '' '' line_words\<close> \<open>set line_words \<union> set (word # words) \<subseteq> A\<close>
      show ?thesis by simp
    next
      case (Cons v vs)
      with \<open>line_words = w # ws\<close> \<open>\<not> too_long f self cur \<or> length line_words \<le> 1\<close>
      show ?thesis by simp
    qed
  qed
  show ?case
  proof (cases "too_long f self (str_join '' '' (line_words @ [word]))")
    case True
    have "\<forall>l \<in> set (wrap_loop f self (finished @ [str_join '' '' line_words]) word [word] words).
            \<not> too_long f self l \<or> l = [] \<or> l \<in> A"
      using word words cur_ok Cons.prems(3,5,6)
      by (intro Cons.IH) auto
    then show ?thesis
      using True wrap_loop_step [OF Cons.prems(1) word] by simp
  next
    case False
    have "\<forall>l \<in> set (wrap_loop f self finished (str_join '' '' (line_words @ [word]))
                       (line_words @ [word]) words).
            \<not> too_long f self l \<or> l = [] \<or> l \<in> A"
      using word words False Cons.prems(1,5,6)
      by (intro Cons.IH) auto
    then show ?thesis
      using False wrap_loop_step [OF Cons.prems(1) word] by simp
  qed
qed

lemma wrap_loop_words:
  assumes "list_all is_word line_words" "list_all is_word words"
    and "cur = str_join '' '' line_words"
  shows "concat (map str_split (wrap_loop f self finished cur line_words words))
         = concat (map str_split finished) @ line_words @ words"
  using assms
proof (induction words arbitrary: finished cur line_words)
  case Nil
  then show ?case by (simp add: str_split_join)
next
  case (Cons word words)
  have word: "is_word word" and words: "list_all is_word words"
    using Cons.prems(2) by simp_all
  show ?case
  proof (cases "too_long f self (str_join '' '' (line_words @ [word]))")
    case True
    have "concat (map str_split
            (wrap_loop f self (finished @ [str_join '' '' line_words]) word [word] words))
          = concat (map str_split (finished @ [str_join '' '' line_words])) @ [word] @ words"
      using word words by (intro Cons.IH) auto
    then show ?thesis
      using True wrap_loop_step [OF Cons.prems(1) word] Cons.prems(1)
      by (simp add: str_split_join)
  next
    case False
    have "concat (map str_split
            (wrap_loop f self finished (str_join '' '' (line_words @ [word]))
               (line_words @ [word]) words))
          = concat (map str_split finished) @ (line_words @ [word]) @ words"
      using word words Cons.prems(1) by (intro Cons.IH) auto
    then show ?thesis
      using False wrap_loop_step [OF Cons.prems(1) word] by simp
  qed
qed

lemma concat_map_split_filter:
  "concat (map str_split (filter (\<lambda>line. line \<noteq> []) ls)) = concat (map str_split ls)"
  by (induction ls) (auto simp: str_split_Nil)

lemma wrap_loop_joined:
  assumes "list_all is_word line_words" "list_all is_word words"
    and "cur = str_join '' '' line_words"
    and "\<forall>l \<in> set finished. str_join '' '' (str_split l) = l"
  shows "\<forall>l \<in> set (wrap_loop f self finished cur line_words words).
           str_join '' '' (str_split l) = l"
  using assms
proof (induction words arbitrary: finished cur line_words)
  case Nil
  then show ?case by (auto simp: str_split_join)
next
  case (Cons word words)
  have word: "is_word word" and words: "list_all is_word words"
    using Cons.prems(2) by simp_all
  show ?case
  proof (cases "too_long f self (str_join '' '' (line_words @ [word]))")
    case True
    have "\<forall>l \<in> set (wrap_loop f self (finished @ [str_join '' '' line_words]) word [word] words).
            str_join '' '' (str_split l) = l"
      using word words Cons.prems(1,4) by (intro Cons.IH) (auto simp: str_split_join)
    then show ?thesis
      using True wrap_loop_step [OF Cons.prems(1) word] by simp
  next
    case False
    have "\<forall>l \<in> set (wrap_loop f self finished (str_join '' '' (line_words @ [word]))
                       (line_words @ [word]) words).
            str_join '' '' (str_split l) = l"
      using word words Cons.prems(1,4) by (intro Cons.IH) auto
    then show ?thesis
      using False wrap_loop_step [OF Cons.prems(1) word] by simp
  qed
qed

lemma wrap_title_words:
  "concat (map str_split (wrap_title f self title)) = str_split title"
  using wrap_loop_words [of "[]" "str_split title" "[]" f self "[]"]
  by (simp add: wrap_title_def concat_map_split_filter str_split_words)

lemma wrap_title_joined:
  "line \<in> set (wrap_title f self title) \<Longrightarrow> str_join '' '' (str_split line) = line"
proof -
  have "\<forall>l \<in> set (wrap_loop f self [] [] [] (str_split title)).
          str_join '' '' (str_split l) = l"
    by (rule wrap_loop_joined) (simp_all add: str_split_words)
  then show "line \<in> set (wrap_title f self title) \<Longrightarrow> str_join '' '' (str_split line) = line"
    by (simp add: wrap_title_def)
qed

text \<open>
  C6. Every line that \<open>_wrap_title\<close> returns has a rendered width that, with the
  margin, is at most the width of the image, except a line that consists of a single
  word of the title, which stands alone on its line when it is too wide. No word is
  broken: the words of a line are words of the title, and the line is these words
  joined by single spaces.
\<close>

theorem wrap_title_lines_fit:
  "line \<in> set (wrap_title f self title) \<Longrightarrow>
     (fst (f (font_size self) line) + margin \<le> width self
      \<or> (line \<in> set (str_split title) \<and> is_word line))
     \<and> set (str_split line) \<subseteq> set (str_split title)
     \<and> str_join '' '' (str_split line) = line"
proof -
  assume line: "line \<in> set (wrap_title f self title)"
  have "\<forall>l \<in> set (wrap_loop f self [] [] [] (str_split title)).
          \<not> too_long f self l \<or> l = [] \<or> l \<in> set (str_split title)"
    by (rule wrap_loop_lines) (simp_all add: str_split_words)
  with line have "\<not> too_long f self line \<or> line \<in> set (str_split title)"
    by (auto simp: wrap_title_def)
  moreover have "line \<in> set (str_split title) \<Longrightarrow> is_word line"
    using str_split_words [of title] by (simp add: list_all_iff)
  ultimately have fit: "fst (f (font_size self) line) + margin \<le> width self
      \<or> (line \<in> set (str_split title) \<and> is_word line)"
    by (auto simp: too_long_def)
  have "set (str_split line) \<subseteq> set (concat (map str_split (wrap_title f self title)))"
    using line by auto
  then have words: "set (str_split line) \<subseteq> set (str_split title)"
    by (simp only: wrap_title_words)
  from fit words wrap_title_joined [OF line] show ?thesis by simp
qed

theorem wrap_title_lines_fit_witness:
  "''supercalifragilistic''
     \<in> set (wrap_title example_font example_narrow_image ''a supercalifragilistic word'')
   \<and> \<not> fst (example_font (font_size example_narrow_image) ''supercalifragilistic'') + margin
         \<le> width example_narrow_image
   \<and> ''supercalifragilistic'' \<in> set (str_split ''a supercalifragilistic word'')
   \<and> is_word ''supercalifragilistic''"
proof -
  have a: "''supercalifragilistic''
     \<in> set (wrap_title example_font example_narrow_image ''a supercalifragilistic word'')"
    by (simp add: wrap_title_def str_split_def is_space_def example_narrow_image_def
        example_font_def margin_def slice_to_neg_def str_strip_def Let_def)
  have b: "\<not> fst (example_font (font_size example_narrow_image) ''supercalifragilistic'') + margin
         \<le> width example_narrow_image"
    by (simp add: example_narrow_image_def example_font_def margin_def)
  show ?thesis
    using a b wrap_title_lines_fit
      [where line = "''supercalifragilistic''" and f = example_font
         and self = example_narrow_image and title = "''a supercalifragilistic word''", OF a]
    by simp
qed

text \<open>
  C10. The words of the lines that \<open>_wrap_title\<close> returns, taken line by line in
  order, are exactly the words of the title as \<open>title.split()\<close> gives them: no word
  is dropped, doubled or moved. Every line is its own words joined by single spaces,
  so splitting a line on spaces gives the same words.
\<close>

theorem wrap_title_keeps_words:
  "concat (map str_split (wrap_title f self title)) = str_split title
   \<and> map (\<lambda>line. str_join '' '' (str_split line)) (wrap_title f self title)
       = wrap_title f self title"
proof
  show "concat (map str_split (wrap_title f self title)) = str_split title"
    by (rule wrap_title_words)
  show "map (\<lambda>line. str_join '' '' (str_split line)) (wrap_title f self title)
               = wrap_title f self title"
    by (intro map_idI) (rule wrap_title_joined)
qed

section \<open>DELIMITED mode\<close>

lemma cut_after_not_Nil: "cut_after d s \<noteq> []"
  by (induction s) (auto elim: cons_first.elims)

lemma first_delimiter_is_delimiter:
  "first_delimiter s = Some d \<Longrightarrow> d \<in> set all_delimiters"
  by (auto simp: first_delimiter_def find_Some_iff)

lemma first_delimiter_Cons:
  "first_delimiter (c # s) = (if c \<in> set all_delimiters then Some c else first_delimiter s)"
  by (simp add: first_delimiter_def)

lemma space_not_delimiter: "CHR '' '' \<notin> set all_delimiters"
  by (simp add: all_delimiters_def)

lemma glue_cons_first:
  "cur \<noteq> [] \<or> c \<noteq> CHR '' '' \<Longrightarrow> glue cur (cons_first c (cut_after d s)) = glue (cur @ [c]) (cut_after d s)"
  using cut_after_not_Nil [of d s]
  by (cases "cut_after d s") (auto simp: drop_spaces_def)

lemma glue_cons_space:
  "glue [] (cons_first (CHR '' '') (cut_after d s)) = glue [] (cut_after d s)"
  using cut_after_not_Nil [of d s]
  by (cases "cut_after d s") (auto simp: drop_spaces_def)

lemma glue_Nil: "ls \<noteq> [] \<Longrightarrow> glue [] ls = map drop_spaces ls"
  by (cases ls) auto

text \<open>
  The scan from any of its states: once \<open>delimiter\<close> is set it stays; while it is
  not set, it becomes the first of the three characters still to come.
\<close>

lemma split_loop_cut_after:
  assumes "\<And>d. delimiter = Some d \<Longrightarrow> d \<in> set all_delimiters"
  shows "split_loop finished cur delimiter s =
           finished @ glue cur (cut_after (case delimiter of
                                             None \<Rightarrow> first_delimiter s
                                           | Some d \<Rightarrow> Some d) s)"
  using assms
proof (induction s arbitrary: finished cur delimiter)
  case Nil
  then show ?case by (simp add: drop_spaces_def)
next
  case (Cons c s)
  define d' where "d' = (case delimiter of None \<Rightarrow> first_delimiter (c # s) | Some d \<Rightarrow> Some d)"
  have d'_delim: "\<And>d. d' = Some d \<Longrightarrow> d \<in> set all_delimiters"
    using Cons.prems first_delimiter_is_delimiter
    by (auto simp: d'_def split: option.splits)
  show ?case
  proof (cases "c = CHR '' '' \<and> cur = []")
    case True
    have "Some c \<noteq> d'"
      using True d'_delim space_not_delimiter by auto
    moreover have "d' = (case delimiter of None \<Rightarrow> first_delimiter s | Some d \<Rightarrow> Some d)"
      using True space_not_delimiter
      by (cases delimiter) (simp_all add: d'_def first_delimiter_Cons)
    ultimately show ?thesis
      using True Cons.IH [where delimiter = delimiter and finished = finished and cur = cur, OF Cons.prems] glue_cons_space [of d' s]
      by (simp add: d'_def [symmetric])
  next
    case False
    define delimiter1 where
      "delimiter1 = (if delimiter = None
                     then (if c \<in> set all_delimiters then Some c else None)
                     else delimiter)"
    have d1_delim: "\<And>d. delimiter1 = Some d \<Longrightarrow> d \<in> set all_delimiters"
      using Cons.prems by (auto simp: delimiter1_def split: if_splits)
    have d1: "(case delimiter1 of None \<Rightarrow> first_delimiter s | Some d \<Rightarrow> Some d) = d'"
      by (auto simp: delimiter1_def d'_def first_delimiter_Cons split: option.splits)
    have step: "split_loop finished cur delimiter (c # s) =
                  (if Some c = delimiter1
                   then split_loop (finished @ [cur @ [c]]) [] delimiter1 s
                   else split_loop finished (cur @ [c]) delimiter1 s)"
    proof -
      have "(c = CHR '' '' \<and> cur = []) = False" using False by simp
      then show ?thesis
        unfolding delimiter1_def split_loop.simps Let_def by (simp only: if_False)
    qed
    show ?thesis
    proof (cases "Some c = delimiter1")
      case True
      then have "d' = Some c" using d1 by auto
      then have "glue cur (cut_after d' (c # s)) = (cur @ [c]) # glue [] (cut_after d' s)"
        using False cut_after_not_Nil [of d' s]
        by (cases "cut_after d' s") (auto simp: drop_spaces_def)
      then show ?thesis
        using True step Cons.IH [where delimiter = delimiter1 and finished = "finished @ [cur @ [c]]" and cur = "[]", OF d1_delim] d1
        by (simp add: d'_def [symmetric])
    next
      case c_no: False
      have "Some c \<noteq> d'"
      proof
        assume "Some c = d'"
        then have "c \<in> set all_delimiters" using d'_delim by simp
        with \<open>Some c = d'\<close> have "delimiter1 = Some c"
          by (cases delimiter) (auto simp: delimiter1_def d'_def first_delimiter_Cons)
        with c_no show False by simp
      qed
      then have "glue cur (cut_after d' (c # s)) = glue (cur @ [c]) (cut_after d' s)"
        using False glue_cons_first [of cur c d' s] by auto
      then show ?thesis
        using c_no step Cons.IH [where delimiter = delimiter1 and finished = finished and cur = "cur @ [c]", OF d1_delim] d1
        by (simp add: d'_def [symmetric])
    qed
  qed
qed

lemma split_loop_delimited: "split_loop [] [] None title = delimited_lines title"
  using split_loop_cut_after [where delimiter = None and finished = "[]" and cur = "[]" and s = title] cut_after_not_Nil [of "first_delimiter title" title]
  by (simp add: glue_Nil delimited_lines_def)

lemma split_check_eq:
  "split_check f self title lines rest =
     (if list_ex (too_long f self) rest then wrap_title f self title
      else filter (\<lambda>line. line \<noteq> []) lines)"
  by (induction rest) (auto simp: too_long_def)

lemma split_title_eq:
  "split_title f self title =
     (if list_ex (too_long f self) (split_loop [] [] None title) then wrap_title f self title
      else filter (\<lambda>line. line \<noteq> []) (split_loop [] [] None title))"
  by (simp add: split_title_def split_check_eq)

text \<open>
  C4. In \<open>_split_title\<close> the delimiter is the first of the characters comma,
  semicolon and full stop that occurs in the title. The lines of the scan are the
  title cut after every occurrence of that character and nowhere else, with the
  spaces in front of each line dropped; the other two characters never end a line.
  When no line is too long, \<open>_split_title\<close> returns these lines without the empty
  ones.
\<close>

theorem split_title_delimiter:
  "split_loop [] [] None title = map drop_spaces (cut_after (first_delimiter title) title)
   \<and> ((\<forall>line \<in> set (split_loop [] [] None title).
          fst (f (font_size self) line) + margin \<le> width self)
      \<longrightarrow> split_title f self title =
            filter (\<lambda>line. line \<noteq> [])
              (map drop_spaces (cut_after (first_delimiter title) title)))"
  using split_loop_delimited [of title]
  by (auto simp: split_title_eq delimited_lines_def list_ex_iff too_long_def)

theorem split_title_delimiter_witness:
  "split_loop [] [] None ''A great day, for a walk; in the park.''
     = [''A great day,'', ''for a walk; in the park.'']
   \<and> list_all (\<lambda>line. fst (example_font (font_size example_image) line) + margin
                         \<le> width example_image)
        (split_loop [] [] None ''A great day, for a walk; in the park.'')
   \<and> split_title example_font example_image ''A great day, for a walk; in the park.''
       = [''A great day,'', ''for a walk; in the park.'']"
  using split_title_delimiter
    [of "''A great day, for a walk; in the park.''" example_font example_image]
  by (simp add: first_delimiter_def all_delimiters_def drop_spaces_def example_image_def
      example_font_def margin_def)

text \<open>
  C5. If one of the lines of the scan has a rendered width that, with the margin,
  exceeds the width of the image, \<open>_split_title\<close> returns what \<open>_wrap_title\<close> returns
  for the same title.
\<close>

theorem split_title_fallback:
  "\<exists>line \<in> set (split_loop [] [] None title).
      fst (f (font_size self) line) + margin > width self \<Longrightarrow>
   split_title f self title = wrap_title f self title"
  by (auto simp: split_title_eq list_ex_iff too_long_def)

theorem split_title_fallback_witness:
  "(\<exists>line \<in> set (split_loop [] [] None ''hello supercal, my, dear'').
       fst (example_font (font_size example_narrow_image) line) + margin
         > width example_narrow_image)
   \<and> split_title example_font example_narrow_image ''hello supercal, my, dear''
       = wrap_title example_font example_narrow_image ''hello supercal, my, dear''"
proof -
  have a: "\<exists>line \<in> set (split_loop [] [] None ''hello supercal, my, dear'').
       fst (example_font (font_size example_narrow_image) line) + margin
         > width example_narrow_image"
    by (simp add: all_delimiters_def example_narrow_image_def example_font_def margin_def)
  show ?thesis
    using a split_title_fallback
      [where title = "''hello supercal, my, dear''" and f = example_font
         and self = example_narrow_image, OF a]
    by simp
qed

section \<open>The upload and its temporary files\<close>

lemma upload_finally_saved:
  assumes "files w path_png \<noteq> None" "files w path_jpg \<noteq> None"
  shows "upload_finally w r =
           (w\<lparr>files := (files w)(path_png := None, path_jpg := None)\<rparr>, r)"
  using assms by (auto simp: upload_finally_def remove_file_def path_png_def path_jpg_def)

lemma upload_finally_add_call:
  "upload_finally (add_call (saved w self) c) r = (cleaned w [c], r)"
  by (simp add: upload_finally_saved add_call_def saved_def cleaned_def)

lemma upload_finally_add_call2:
  "upload_finally (add_call (add_call (saved w self) c) c') r = (cleaned w [c, c'], r)"
  by (simp add: upload_finally_saved add_call_def saved_def cleaned_def)

text \<open>
  \<open>upload\<close> when a call of \<open>save\<close> raises: the exception leaves the method before the
  \<open>try\<close> statement is entered, and nothing is removed.
\<close>

lemma upload_save_png_raises:
  "save_result ev (calls w) path_png self = Some e \<Longrightarrow> upload ev w self cfg = (w, Inl e)"
  by (simp add: upload_def)

lemma upload_save_jpg_raises:
  "save_result ev (calls w) path_png self = None \<Longrightarrow>
   save_result ev (calls w) path_jpg self = Some e \<Longrightarrow>
   upload ev w self cfg = (w\<lparr>files := (files w)(path_png \<mapsto> self)\<rparr>, Inl e)"
  by (simp add: upload_def)

text \<open>
  \<open>upload\<close> when both files are saved, by the outcome of the two attempts: on every
  such path both files are gone when the method is left.
\<close>

lemma upload_eq:
  assumes "save_result ev (calls w) path_png self = None"
    and "save_result ev (calls w) path_jpg self = None"
  shows "upload ev w self cfg =
     (case upload_from_path ev (calls w) path_png cfg of
        Inr link \<Rightarrow> (cleaned w [UploadFromPath path_png cfg], Inr (Some link))
      | Inl e \<Rightarrow>
          if e = ImgurClientError
          then (case upload_from_path ev (calls w @ [UploadFromPath path_png cfg]) path_jpg cfg of
                  Inr link \<Rightarrow>
                    (cleaned w [UploadFromPath path_png cfg, UploadFromPath path_jpg cfg],
                     Inr (Some link))
                | Inl e' \<Rightarrow>
                    (cleaned w [UploadFromPath path_png cfg, UploadFromPath path_jpg cfg],
                     if e' = ImgurClientError then Inr None else Inl e'))
          else (cleaned w [UploadFromPath path_png cfg], Inl e))"
proof -
  have s: "w\<lparr>files := (files w)(path_png \<mapsto> self)\<rparr>
            \<lparr>files := (files (w\<lparr>files := (files w)(path_png \<mapsto> self)\<rparr>))(path_jpg \<mapsto> self)\<rparr>
           = saved w self"
    by (simp add: saved_def)
  have c: "calls (w\<lparr>files := (files w)(path_png \<mapsto> self)\<rparr>) = calls w"
    "calls (saved w self) = calls w"
    "calls (add_call (saved w self) c) = calls w @ [c]" for c
    by (simp_all add: saved_def add_call_def)
  show ?thesis
    unfolding upload_def Let_def s c assms upload_finally_add_call upload_finally_add_call2
    by (simp split: sum.splits)
qed

lemma upload_removes_saved_files:
  assumes "save_result ev (calls w) path_png self = None"
    and "save_result ev (calls w) path_jpg self = None"
  shows "files (fst (upload ev w self cfg)) path_png = None"
    and "files (fst (upload ev w self cfg)) path_jpg = None"
  by (simp_all add: upload_eq [OF assms] cleaned_def split: sum.splits)

text \<open>
  C8. Both temporary files are to be removed however \<open>upload\<close> is left, also when an
  exception leaves it. The two calls of \<open>save\<close> stand before the \<open>try\<close> statement
  whose \<open>finally\<close> block removes the files: when \<open>temp.png\<close> is written and the call
  that is to write \<open>temp.jpg\<close> raises, the exception leaves \<open>upload\<close> with no attempt to
  upload and \<open>temp.png\<close> is still there.
\<close>

theorem upload_leaves_png_when_jpg_save_raises:
  "snd (upload example_env_jpg_unwritable example_world example_image example_config)
     = Inl OSError
   \<and> files (fst (upload example_env_jpg_unwritable example_world example_image
                     example_config)) path_png = Some example_image
   \<and> calls (fst (upload example_env_jpg_unwritable example_world example_image
                     example_config)) = []"
proof -
  have "upload example_env_jpg_unwritable example_world example_image example_config
        = (example_world\<lparr>files := (files example_world)(path_png \<mapsto> example_image)\<rparr>,
           Inl OSError)"
    by (rule upload_save_jpg_raises)
       (simp_all add: example_env_jpg_unwritable_def example_env_def path_png_def path_jpg_def)
  then show ?thesis
    by (simp add: example_world_def)
qed

section \<open>The retry flag\<close>

lemma update_retry_other [simp]:
  "messages (update_retry d sid v) = messages d"
  "committed_submissions (update_retry d sid v) = committed_submissions d"
  "committed_messages (update_retry d sid v) = committed_messages d"
  by (simp_all add: update_retry_def split: option.splits)

lemma update_retry_row:
  "submissions (update_retry d sid v) sid = map_option (\<lambda>row. row\<lparr>row_retry := v\<rparr>) (submissions d sid)"
  by (simp add: update_retry_def split: option.splits)

text \<open>
  C9. \<open>submission_set_retry\<close> with \<open>delete_message\<close> true: without a message the
  call raises \<open>TypeError\<close> and commits nothing; with a message it returns, the message
  is no longer in the \<open>messages\<close> table, so that \<open>message_exists\<close> is false for it, and
  the submission, when the table has it, has its retry flag set, in the committed
  table as well.
\<close>

theorem submission_set_retry_delete_message:
  "snd (submission_set_retry d sid True None) = Some TypeError
   \<and> committed_submissions (fst (submission_set_retry d sid True None)) = committed_submissions d
   \<and> committed_messages (fst (submission_set_retry d sid True None)) = committed_messages d
   \<and> snd (submission_set_retry d sid True (Some mid)) = None
   \<and> \<not> message_exists (fst (submission_set_retry d sid True (Some mid))) mid
   \<and> committed_messages (fst (submission_set_retry d sid True (Some mid))) mid = None
   \<and> (\<forall>row. submissions d sid = Some row \<longrightarrow>
         submissions (fst (submission_set_retry d sid True (Some mid))) sid
           = Some (row\<lparr>row_retry := 1\<rparr>)
         \<and> committed_submissions (fst (submission_set_retry d sid True (Some mid))) sid
           = Some (row\<lparr>row_retry := 1\<rparr>))"
  by (simp add: submission_set_retry_def commit_def message_exists_def update_retry_row Let_def)

lemmas example_defs =
  example_env_def example_env_png_refused_def example_env_rate_limit_def
  example_env_jpg_unwritable_def example_world_def
  example_submission_def example_comment_def example_database_def example_row_def
  example_message_def example_font_def example_image_def example_narrow_image_def
  example_titled_image_def example_config_def

theorem submission_set_retry_delete_message_witness:
  "submissions example_database ''abc'' = Some example_row
   \<and> message_exists example_database ''m1''
   \<and> \<not> message_exists (fst (submission_set_retry example_database ''abc'' True (Some ''m1''))) ''m1''
   \<and> committed_submissions
        (fst (submission_set_retry example_database ''abc'' True (Some ''m1''))) ''abc''
       = Some (example_row\<lparr>row_retry := 1\<rparr>)
   \<and> snd (submission_set_retry example_database ''abc'' True None) = Some TypeError"
proof -
  have a: "submissions example_database ''abc'' = Some example_row"
    by (simp add: example_database_def)
  have b: "message_exists example_database ''m1''"
    by (simp add: example_database_def message_exists_def)
  show ?thesis
    using a b submission_set_retry_delete_message [of example_database "''abc''" "''m1''"]
    by simp
qed

text \<open>When the \<open>TypeError\<close> is raised the UPDATE has already run on the connection:
  the flag is set there, uncommitted.\<close>

lemma submission_set_retry_error_pending:
  "submissions d sid = Some row \<Longrightarrow>
     submissions (fst (submission_set_retry d sid True None)) sid = Some (row\<lparr>row_retry := 1\<rparr>)"
  by (simp add: submission_set_retry_def update_retry_row Let_def)

section \<open>The reply and the processing of a submission\<close>

lemma template_format:
  "str_format template []
     [(''image_url'', url), (''upscaled'', u), (''submission_id'', sid)]
   = Inr (''[Image with added title]('' @ url @ '')\<newline>\<newline>'' @ u
          @ ''---\<newline>\<newline>summon me with /u/titletoimagebot | ''
          @ ''[feedback](https://reddit.com/message/compose/''
          @ ''?to=TitleToImageBot&subject=feedback%20'' @ sid @ '') | ''
          @ ''[source](https://github.com/gerenook/titletoimagebot)'')"
  by (simp add: str_format_def template_def)

lemma template_format_reply_text:
  "str_format template []
     [(''image_url'', url),
      (''upscaled'', if up then '' (image was upscaled)\<newline>\<newline>'' else []),
      (''submission_id'', sid)]
   = Inr (reply_text url sid up)"
  unfolding template_format by (simp add: reply_text_def)

lemma reply_imgur_url_eq:
  "reply_imgur_url ev w url sbm source_comment up =
     (let target = reply_target_of sbm source_comment;
          reply = reply_text url (sub_id sbm) up;
          w1 = add_call w (Reply target reply)
      in case reply_result ev (calls w) target reply of
           None \<Rightarrow> (w1\<lparr>db := submission_clear_retry (db w1) (sub_id sbm)\<rparr>, Inr True)
         | Some e \<Rightarrow>
             if e = APIException
             then (case submission_set_retry (db w1) (sub_id sbm)
                          (source_comment \<noteq> None) (map_option comment_id source_comment) of
                     (d, Some e') \<Rightarrow> (w1\<lparr>db := d\<rparr>, Inl e')
                   | (d, None) \<Rightarrow> (w1\<lparr>db := d\<rparr>, Inr False))
             else (w1, Inr False))"
  unfolding reply_imgur_url_def template_format_reply_text reply_target_of_def
  by (simp add: Let_def)

lemma reply_imgur_url_calls:
  "calls (fst (reply_imgur_url ev w url sbm source_comment up)) =
     calls w @ [Reply (reply_target_of sbm source_comment) (reply_text url (sub_id sbm) up)]"
  unfolding reply_imgur_url_eq Let_def
  by (simp add: add_call_def split: option.splits prod.splits)

lemma imgur_config_eq:
  "imgur_config sbm author =
     Inr \<lparr>cfg_album = None, cfg_name = sub_id sbm,
          cfg_title = CHR 0x22 # sub_title sbm @ CHR 0x22 # '' by /u/'' @ author,
          cfg_description = sub_shortlink sbm\<rparr>"
  by (simp add: imgur_config_def str_format_def)

text \<open>
  C3. A submission that the database already holds with the retry flag 0, processed
  without a comment that mentions the bot, is skipped: \<open>_process_submission\<close> returns
  and leaves the database, the files and the list of calls as they were, so nothing
  is downloaded, laid out, uploaded or replied to, and no row is inserted.
\<close>

theorem process_submission_skips_recorded:
  assumes "submission_select (db w) (sub_id sbm) = Some row" "row_retry row = 0"
  shows "process_submission ev w sbm None custom_title = (w, None)"
proof -
  have "check_db w sbm None author = (w, Return)" for author
    using assms by (simp add: check_db_def)
  then have "compose_image ev w sbm None custom_title = (w, Return)"
    by (simp add: compose_image_def split: option.splits)
  then show ?thesis
    by (simp add: process_submission_def)
qed

theorem process_submission_skips_recorded_witness:
  "submission_select (db example_world) (sub_id example_submission) = Some example_row
   \<and> row_retry example_row = 0
   \<and> process_submission example_env example_world example_submission None None
       = (example_world, None)"
proof -
  have a: "submission_select (db example_world) (sub_id example_submission) = Some example_row"
    by (simp add: submission_select_def example_defs)
  have b: "row_retry example_row = 0"
    by (simp add: example_row_def)
  show ?thesis
    using a b process_submission_skips_recorded [OF a b, of example_env None] by simp
qed

text \<open>
  When \<open>_process_submission\<close> reaches the upload, the submission is in the
  database: it was found there or has just been inserted.
\<close>

lemma check_db_Continue:
  "check_db w sbm source_comment author = (w1, Continue u) \<Longrightarrow>
     submissions (db w1) (sub_id sbm) \<noteq> None"
  by (auto simp: check_db_def submission_select_def submission_insert_def commit_def
      split: option.splits if_splits)

lemma download_db: "download ev w url = (w1, r) \<Longrightarrow> db w1 = db w"
  by (auto simp: download_def add_call_def Let_def split: sum.splits if_splits)

lemma compose_image_Continue:
  assumes "compose_image ev w sbm source_comment custom_title = (w1, Continue x)"
  shows "submissions (db w1) (sub_id sbm) \<noteq> None"
proof -
  from assms obtain author where a: "sub_author sbm = Some author"
    by (auto simp: compose_image_def split: option.splits)
  obtain wa ra where c: "check_db w sbm source_comment author = (wa, ra)"
    by (cases "check_db w sbm source_comment author")
  with assms a obtain u where ra: "ra = Continue u"
    by (cases ra) (auto simp: compose_image_def split: if_splits)
  have row: "submissions (db wa) (sub_id sbm) \<noteq> None"
    using check_db_Continue c ra by blast
  obtain wb rb where d: "download ev wa (sub_url sbm) = (wb, rb)"
    by (cases "download ev wa (sub_url sbm)")
  have "db w1 = db wb"
    using assms a c ra d
    by (cases rb) (auto simp: compose_image_def add_call_def Let_def split: if_splits sum.splits)
  with download_db [OF d] row show ?thesis by simp
qed

lemma publish_and_reply_rate_limit:
  assumes "imgur_config sbm author = Inr cfg"
    and "save_result ev (calls w) path_png rimage = None"
    and "save_result ev (calls w) path_jpg rimage = None"
    and "upload_from_path ev (calls w) path_png cfg = Inl ImgurClientRateLimitError"
  shows "publish_and_reply ev w sbm source_comment author rimage =
           ((cleaned w [UploadFromPath path_png cfg])
              \<lparr>db := fst (submission_set_retry (db w) (sub_id sbm) (source_comment \<noteq> None)
                            (map_option comment_id source_comment))\<rparr>,
            snd (submission_set_retry (db w) (sub_id sbm) (source_comment \<noteq> None)
                   (map_option comment_id source_comment)))"
  using assms(1,4)
  by (simp add: publish_and_reply_def upload_eq [OF assms(2,3)] cleaned_def split: prod.splits)

lemma submission_set_retry_of_comment:
  "snd (submission_set_retry d sid (source_comment \<noteq> None)
          (map_option comment_id source_comment)) = None"
  "submissions (fst (submission_set_retry d sid (source_comment \<noteq> None)
          (map_option comment_id source_comment))) sid
     = map_option (\<lambda>row. row\<lparr>row_retry := 1\<rparr>) (submissions d sid)"
  "committed_submissions (fst (submission_set_retry d sid (source_comment \<noteq> None)
          (map_option comment_id source_comment))) sid
     = map_option (\<lambda>row. row\<lparr>row_retry := 1\<rparr>) (submissions d sid)"
  by (cases source_comment;
      simp add: submission_set_retry_def commit_def update_retry_row Let_def)+

lemma compose_image_example:
  "compose_image (example_env\<lparr>upload_from_path := u\<rparr>) example_world example_submission
     (Some example_comment) None
   = (example_world\<lparr>calls := [RequestsGet ''http://i/cat.png'', AddTitle ''A cat'' False]\<rparr>,
      Continue (''bob'', example_titled_image))"
  by (simp add: compose_image_def example_defs
      check_db_def submission_select_def score_threshold_def str_endswith_def download_def
      add_call_def RedditImage_init_def tuple_less_def min_size_def font_scale_factor_def
      add_title_def regex_resolution_sub_def match_resolution_def opt_space_def is_space_def
      wrap_title_def str_split_def margin_def enumerate_eq_zip Let_def)

lemma imgur_config_example: "imgur_config example_submission ''bob'' = Inr example_config"
  by (simp add: imgur_config_eq example_defs)

text \<open>
  C2. With both files saved: if the upload of the PNG fails with a client error, the
  upload of the JPG is attempted, and \<open>upload\<close> returns \<open>None\<close> exactly when that
  attempt fails with a client error too. If the upload of the PNG fails with the
  rate-limit error, the JPG is not attempted and the error leaves \<open>upload\<close>;
  \<open>_process_submission\<close> then returns after setting, and committing, the retry flag
  of the submission, having made no further call.
\<close>

theorem upload_fallback_and_retry_flag:
  "(save_result ev (calls w) path_png rimage = None
      \<and> save_result ev (calls w) path_jpg rimage = None
      \<and> upload_from_path ev (calls w) path_png cfg = Inl ImgurClientError \<longrightarrow>
      calls (fst (upload ev w rimage cfg))
        = calls w @ [UploadFromPath path_png cfg, UploadFromPath path_jpg cfg]
      \<and> (snd (upload ev w rimage cfg) = Inr None
           \<longleftrightarrow> upload_from_path ev (calls w @ [UploadFromPath path_png cfg]) path_jpg cfg
                 = Inl ImgurClientError))
   \<and> (save_result ev (calls w) path_png rimage = None
        \<and> save_result ev (calls w) path_jpg rimage = None
        \<and> upload_from_path ev (calls w) path_png cfg = Inl ImgurClientRateLimitError \<longrightarrow>
        snd (upload ev w rimage cfg) = Inl ImgurClientRateLimitError
        \<and> calls (fst (upload ev w rimage cfg)) = calls w @ [UploadFromPath path_png cfg])
   \<and> (compose_image ev w0 sbm source_comment custom_title = (w, Continue (author, rimage))
        \<and> imgur_config sbm author = Inr cfg
        \<and> save_result ev (calls w) path_png rimage = None
        \<and> save_result ev (calls w) path_jpg rimage = None
        \<and> upload_from_path ev (calls w) path_png cfg = Inl ImgurClientRateLimitError \<longrightarrow>
        snd (process_submission ev w0 sbm source_comment custom_title) = None
        \<and> calls (fst (process_submission ev w0 sbm source_comment custom_title))
            = calls w @ [UploadFromPath path_png cfg]
        \<and> (\<exists>row. submissions (db (fst (process_submission ev w0 sbm source_comment custom_title)))
                     (sub_id sbm) = Some row
                  \<and> committed_submissions
                       (db (fst (process_submission ev w0 sbm source_comment custom_title)))
                       (sub_id sbm) = Some row
                  \<and> row_retry row = 1))"
proof (intro conjI impI)
  assume h: "save_result ev (calls w) path_png rimage = None
      \<and> save_result ev (calls w) path_jpg rimage = None
      \<and> upload_from_path ev (calls w) path_png cfg = Inl ImgurClientError"
  then have s: "save_result ev (calls w) path_png rimage = None"
    "save_result ev (calls w) path_jpg rimage = None" by simp_all
  from h show "calls (fst (upload ev w rimage cfg))
        = calls w @ [UploadFromPath path_png cfg, UploadFromPath path_jpg cfg]"
    and "snd (upload ev w rimage cfg) = Inr None
           \<longleftrightarrow> upload_from_path ev (calls w @ [UploadFromPath path_png cfg]) path_jpg cfg
                 = Inl ImgurClientError"
    by (auto simp: upload_eq [OF s] cleaned_def split: sum.splits)
next
  assume h: "save_result ev (calls w) path_png rimage = None
        \<and> save_result ev (calls w) path_jpg rimage = None
        \<and> upload_from_path ev (calls w) path_png cfg = Inl ImgurClientRateLimitError"
  then have s: "save_result ev (calls w) path_png rimage = None"
    "save_result ev (calls w) path_jpg rimage = None" by simp_all
  from h show "snd (upload ev w rimage cfg) = Inl ImgurClientRateLimitError"
    and "calls (fst (upload ev w rimage cfg)) = calls w @ [UploadFromPath path_png cfg]"
    by (simp_all add: upload_eq [OF s] cleaned_def)
next
  assume h: "compose_image ev w0 sbm source_comment custom_title = (w, Continue (author, rimage))
        \<and> imgur_config sbm author = Inr cfg
        \<and> save_result ev (calls w) path_png rimage = None
        \<and> save_result ev (calls w) path_jpg rimage = None
        \<and> upload_from_path ev (calls w) path_png cfg = Inl ImgurClientRateLimitError"
  then obtain row where row: "submissions (db w) (sub_id sbm) = Some row"
    using compose_image_Continue by blast
  have p: "process_submission ev w0 sbm source_comment custom_title
           = publish_and_reply ev w sbm source_comment author rimage"
    using h by (simp add: process_submission_def)
  define sr where
    "sr = submission_set_retry (db w) (sub_id sbm) (source_comment \<noteq> None)
            (map_option comment_id source_comment)"
  have sr: "snd sr = None"
    "submissions (fst sr) (sub_id sbm) = Some (row\<lparr>row_retry := 1\<rparr>)"
    "committed_submissions (fst sr) (sub_id sbm) = Some (row\<lparr>row_retry := 1\<rparr>)"
    unfolding sr_def submission_set_retry_of_comment using row by simp_all
  have q: "process_submission ev w0 sbm source_comment custom_title
           = ((cleaned w [UploadFromPath path_png cfg])\<lparr>db := fst sr\<rparr>, snd sr)"
    unfolding p sr_def using h by (intro publish_and_reply_rate_limit) simp_all
  show "snd (process_submission ev w0 sbm source_comment custom_title) = None"
    by (simp add: q sr)
  show "calls (fst (process_submission ev w0 sbm source_comment custom_title))
            = calls w @ [UploadFromPath path_png cfg]"
    by (simp add: q cleaned_def)
  show "\<exists>row. submissions (db (fst (process_submission ev w0 sbm source_comment custom_title)))
                     (sub_id sbm) = Some row
                  \<and> committed_submissions
                       (db (fst (process_submission ev w0 sbm source_comment custom_title)))
                       (sub_id sbm) = Some row
                  \<and> row_retry row = 1"
    by (simp add: q sr)
qed

theorem upload_fallback_and_retry_flag_witness:
  "save_result example_env_png_refused (calls example_world) path_png example_image = None
   \<and> save_result example_env_png_refused (calls example_world) path_jpg example_image = None
   \<and> upload_from_path example_env_png_refused (calls example_world) path_png example_config
     = Inl ImgurClientError
   \<and> calls (fst (upload example_env_png_refused example_world example_image example_config))
       = [UploadFromPath path_png example_config, UploadFromPath path_jpg example_config]
   \<and> snd (upload example_env_png_refused example_world example_image example_config) \<noteq> Inr None
   \<and> compose_image example_env_rate_limit example_world example_submission
        (Some example_comment) None
       = (example_world\<lparr>calls := [RequestsGet ''http://i/cat.png'', AddTitle ''A cat'' False]\<rparr>,
          Continue (''bob'', example_titled_image))
   \<and> snd (process_submission example_env_rate_limit example_world example_submission
             (Some example_comment) None) = None
   \<and> calls (fst (process_submission example_env_rate_limit example_world example_submission
                    (Some example_comment) None))
       = [RequestsGet ''http://i/cat.png'', AddTitle ''A cat'' False,
          UploadFromPath path_png example_config]
   \<and> (\<exists>row. committed_submissions
                (db (fst (process_submission example_env_rate_limit example_world
                            example_submission (Some example_comment) None))) ''abc'' = Some row
             \<and> row_retry row = 1)"
proof -
  let ?w1 = "example_world\<lparr>calls := [RequestsGet ''http://i/cat.png'', AddTitle ''A cat'' False]\<rparr>"
  have s: "save_result example_env_png_refused (calls example_world) path_png example_image = None"
    "save_result example_env_png_refused (calls example_world) path_jpg example_image = None"
    by (simp_all add: example_env_png_refused_def example_env_def)
  have a: "upload_from_path example_env_png_refused (calls example_world) path_png example_config
             = Inl ImgurClientError"
    by (simp add: example_env_png_refused_def)
  have a': "upload_from_path example_env_png_refused
              (calls example_world @ [UploadFromPath path_png example_config]) path_jpg
              example_config \<noteq> Inl ImgurClientError"
    by (simp add: example_env_png_refused_def path_png_def path_jpg_def)
  have b: "compose_image example_env_rate_limit example_world example_submission
             (Some example_comment) None = (?w1, Continue (''bob'', example_titled_image))"
    unfolding example_env_rate_limit_def by (rule compose_image_example)
  have s': "save_result example_env_rate_limit (calls ?w1) path_png example_titled_image = None"
    "save_result example_env_rate_limit (calls ?w1) path_jpg example_titled_image = None"
    by (simp_all add: example_env_rate_limit_def example_env_def)
  have c: "upload_from_path example_env_rate_limit (calls ?w1) path_png example_config
             = Inl ImgurClientRateLimitError"
    by (simp add: example_env_rate_limit_def)
  note t1 = upload_fallback_and_retry_flag
    [where ev = example_env_png_refused and w = example_world and cfg = example_config
       and rimage = example_image, THEN conjunct1, rule_format,
     OF conjI [OF s(1) conjI [OF s(2) a]]]
  note t3 = upload_fallback_and_retry_flag
    [where ev = example_env_rate_limit and w = ?w1 and cfg = example_config
       and rimage = example_titled_image and ?w0.0 = example_world
       and sbm = example_submission and source_comment = "Some example_comment"
       and custom_title = None and author = "''bob''",
     THEN conjunct2, THEN conjunct2, rule_format,
     OF conjI [OF b conjI [OF imgur_config_example conjI [OF s'(1) conjI [OF s'(2) c]]]]]
  have id: "sub_id example_submission = ''abc''"
    by (simp add: example_submission_def)
  show ?thesis
    using s a a' b t1 t3 unfolding id by (auto simp: example_world_def)
qed

lemma publish_and_reply_uploaded:
  assumes "imgur_config sbm author = Inr cfg"
    and "upload ev w rimage cfg = (w1, Inr (Some url))" "url \<noteq> []"
  shows "publish_and_reply ev w sbm source_comment author rimage =
           (case reply_imgur_url ev
                   (w1\<lparr>db := submission_set_imgur_url (db w1) (sub_id sbm) url\<rparr>)
                   url sbm source_comment (upscaled rimage) of
              (w3, Inl e) \<Rightarrow> (w3, Some e)
            | (w3, Inr b) \<Rightarrow> (w3, None))"
  using assms by (simp add: publish_and_reply_def Let_def)

text \<open>
  C7, as amended. The reply is the template with the link, the note on upscaling and
  the id of the submission filled in; the note is a space followed by
  \<open>(image was upscaled)\<close> and two newlines when the image was upscaled, and empty
  otherwise. \<open>_reply_imgur_url\<close> posts this text, to the comment that mentioned the
  bot or else to the submission, and \<open>_process_submission\<close>, once the upload has
  returned a link, posts it with the link and with \<open>upscaled\<close> of the image.
\<close>

theorem reply_renders_template:
  "reply_text url sid up =
     ''[Image with added title]('' @ url @ '')\<newline>\<newline>''
     @ (if up then '' (image was upscaled)\<newline>\<newline>'' else [])
     @ ''---\<newline>\<newline>summon me with /u/titletoimagebot | [feedback](https://reddit.com/message/compose/?to=TitleToImageBot&subject=feedback%20''
     @ sid @ '') | [source](https://github.com/gerenook/titletoimagebot)''
   \<and> calls (fst (reply_imgur_url ev w url sbm source_comment up))
       = calls w @ [Reply (reply_target_of sbm source_comment) (reply_text url (sub_id sbm) up)]
   \<and> (compose_image ev w0 sbm source_comment custom_title = (w1, Continue (author, rimage))
        \<and> imgur_config sbm author = Inr cfg
        \<and> upload ev w1 rimage cfg = (w2, Inr (Some url)) \<and> url \<noteq> [] \<longrightarrow>
        calls (fst (process_submission ev w0 sbm source_comment custom_title))
          = calls w2 @ [Reply (reply_target_of sbm source_comment)
                          (reply_text url (sub_id sbm) (upscaled rimage))])"
proof (intro conjI impI)
  show "reply_text url sid up =
     ''[Image with added title]('' @ url @ '')\<newline>\<newline>''
     @ (if up then '' (image was upscaled)\<newline>\<newline>'' else [])
     @ ''---\<newline>\<newline>summon me with /u/titletoimagebot | [feedback](https://reddit.com/message/compose/?to=TitleToImageBot&subject=feedback%20''
     @ sid @ '') | [source](https://github.com/gerenook/titletoimagebot)''"
    by (simp add: reply_text_def)
  show "calls (fst (reply_imgur_url ev w url sbm source_comment up))
       = calls w @ [Reply (reply_target_of sbm source_comment) (reply_text url (sub_id sbm) up)]"
    by (rule reply_imgur_url_calls)
  assume h: "compose_image ev w0 sbm source_comment custom_title = (w1, Continue (author, rimage))
        \<and> imgur_config sbm author = Inr cfg
        \<and> upload ev w1 rimage cfg = (w2, Inr (Some url)) \<and> url \<noteq> []"
  define w2' where "w2' = w2\<lparr>db := submission_set_imgur_url (db w2) (sub_id sbm) url\<rparr>"
  have "process_submission ev w0 sbm source_comment custom_title
        = (case reply_imgur_url ev w2' url sbm source_comment (upscaled rimage) of
             (w3, Inl e) \<Rightarrow> (w3, Some e)
           | (w3, Inr b) \<Rightarrow> (w3, None))"
    using h publish_and_reply_uploaded [of sbm author cfg ev w1 rimage w2 url source_comment]
    by (simp add: process_submission_def w2'_def)
  then have "fst (process_submission ev w0 sbm source_comment custom_title)
             = fst (reply_imgur_url ev w2' url sbm source_comment (upscaled rimage))"
    by (simp split: prod.splits sum.splits)
  then show "calls (fst (process_submission ev w0 sbm source_comment custom_title))
          = calls w2 @ [Reply (reply_target_of sbm source_comment)
                          (reply_text url (sub_id sbm) (upscaled rimage))]"
    by (simp add: reply_imgur_url_calls w2'_def)
qed

theorem reply_renders_template_witness:
  "compose_image example_env example_world example_submission (Some example_comment) None
     = (example_world\<lparr>calls := [RequestsGet ''http://i/cat.png'', AddTitle ''A cat'' False]\<rparr>,
        Continue (''bob'', example_titled_image))
   \<and> snd (upload example_env
            (example_world\<lparr>calls := [RequestsGet ''http://i/cat.png'', AddTitle ''A cat'' False]\<rparr>)
            example_titled_image example_config) = Inr (Some ''http://imgur/1'')
   \<and> calls (fst (process_submission example_env example_world example_submission
                    (Some example_comment) None))
       = [RequestsGet ''http://i/cat.png'', AddTitle ''A cat'' False,
          UploadFromPath path_png example_config,
          Reply (ToComment ''m1'')
            (''[Image with added title](http://imgur/1)\<newline>\<newline>''
             @ ''---\<newline>\<newline>summon me with /u/titletoimagebot | ''
             @ ''[feedback](https://reddit.com/message/compose/''
             @ ''?to=TitleToImageBot&subject=feedback%20abc) | ''
             @ ''[source](https://github.com/gerenook/titletoimagebot)'')]"
proof -
  let ?w1 = "example_world\<lparr>calls := [RequestsGet ''http://i/cat.png'', AddTitle ''A cat'' False]\<rparr>"
  have e: "example_env = example_env\<lparr>upload_from_path := upload_from_path example_env\<rparr>"
    by simp
  have b: "compose_image example_env example_world example_submission
             (Some example_comment) None = (?w1, Continue (''bob'', example_titled_image))"
    by (subst e) (rule compose_image_example)
  have u: "upload example_env ?w1 example_titled_image example_config
           = (cleaned ?w1 [UploadFromPath path_png example_config], Inr (Some ''http://imgur/1''))"
    by (subst upload_eq) (simp_all add: example_env_def)
  have n: "''http://imgur/1'' \<noteq> []" by simp
  note t = reply_renders_template
    [where ev = example_env and ?w0.0 = example_world and sbm = example_submission
       and source_comment = "Some example_comment" and custom_title = None
       and ?w1.0 = ?w1 and author = "''bob''" and rimage = example_titled_image
       and cfg = example_config and url = "''http://imgur/1''"
       and ?w2.0 = "cleaned ?w1 [UploadFromPath path_png example_config]",
     THEN conjunct2, THEN conjunct2, rule_format,
     OF conjI [OF b conjI [OF imgur_config_example conjI [OF u n]]]]
  show ?thesis
    using b u t
    by (simp add: cleaned_def example_world_def reply_target_of_def reply_text_def
        example_comment_def example_submission_def example_titled_image_def)
qed

text \<open>
  The note on upscaling is not \<open>(image was upscaled)\<close> without the space in front:
  the reply for an upscaled image differs from the text rendered that way.
\<close>

theorem reply_upscaled_counterexample:
  "calls (fst (reply_imgur_url example_env example_world ''http://imgur/1''
                 example_submission None True))
   \<noteq> calls example_world
       @ [Reply (ToSubmission ''abc'')
            (''[Image with added title](http://imgur/1)\<newline>\<newline>''
             @ ''(image was upscaled)\<newline>\<newline>''
             @ ''---\<newline>\<newline>summon me with /u/titletoimagebot | ''
             @ ''[feedback](https://reddit.com/message/compose/''
             @ ''?to=TitleToImageBot&subject=feedback%20abc) | ''
             @ ''[source](https://github.com/gerenook/titletoimagebot)'')]"
  unfolding reply_imgur_url_calls
  by (simp add: reply_text_def reply_target_of_def example_submission_def)

end
